theory Spec2Isabelle
  imports Main
begin

section \<open>Data model\<close>

text \<open>
  A Python \<open>str\<close> that carries user text is a list of Unicode code points, since
  \<open>is_chinese\<close> inspects code points. Identifiers of the remote services (task ids,
  task statuses, URLs, error codes) are plain strings, and an \<open>option\<close> of a string where
  the code may hold \<open>None\<close> in their place.
\<close>

type_synonym ustr = "nat list"

text \<open>The exceptions the handlers of \<open>bot.py\<close> can see.\<close>

datatype exc =
    RemoteError      \<comment> \<open>raised by a call to a remote service (dashscope)\<close>
  | KeyError         \<comment> \<open>a missing dictionary key\<close>
  | IndexError       \<comment> \<open>\<open>[0]\<close> on an empty list\<close>
  | TypeError        \<comment> \<open>\<open>[0]\<close> on \<open>None\<close>\<close>
  | AttributeError   \<comment> \<open>\<open>.strip()\<close> on \<open>None\<close>\<close>
  | TelegramError    \<comment> \<open>raised by \<open>reply_text\<close> or \<open>reply_photo\<close>\<close>
  | DownloadError    \<comment> \<open>raised while fetching or writing the image file\<close>

datatype 'a call = Raises exc | Returns 'a

text \<open>
  An entry of the \<open>output\<close> dictionary of a response: the key is missing, or it holds a
  JSON null (\<open>None\<close> in Python), or it holds a value. A Python value that may be \<open>None\<close> is
  an \<open>option\<close>. \<open>subscript\<close> is \<open>d[key]\<close>, which raises on a missing key;
  \<open>get_default\<close> is \<open>d.get(key, default)\<close>, which yields the default on a missing key only.
  The \<open>output\<close> of a response with status code 200 is taken to be a dictionary.
\<close>

datatype 'a field = Absent | Null | Present 'a

fun subscript :: "'a field \<Rightarrow> exc + 'a option" where
  "subscript Absent = Inl KeyError"
| "subscript Null = Inr None"
| "subscript (Present v) = Inr (Some v)"

fun get_default :: "'a field \<Rightarrow> 'a \<Rightarrow> 'a option" where
  "get_default Absent d = Some d"
| "get_default Null d = None"
| "get_default (Present v) d = Some v"

text \<open>Response of \<open>Generation.call\<close>; \<open>llm_text\<close> is the entry \<open>'text'\<close> of \<open>output\<close>.\<close>

record llm_response =
  llm_status_code :: int
  llm_code :: string
  llm_message :: string
  llm_text :: "ustr field"

text \<open>Response of \<open>ImageSynthesis.async_call\<close>; \<open>sub_task_id\<close> is the entry \<open>'task_id'\<close> of \<open>output\<close>.\<close>

record submit_response =
  sub_status_code :: int
  sub_code :: string
  sub_message :: string
  sub_task_id :: "string field"

text \<open>
  Response of \<open>ImageSynthesis.fetch\<close>. \<open>st_task_status\<close>, \<open>st_results\<close> and
  \<open>st_output_message\<close> are the entries \<open>'task_status'\<close>, \<open>'results'\<close> and \<open>'message'\<close> of
  \<open>output\<close>; an item of the result list is a dictionary, given by its entry \<open>'url'\<close>.
\<close>

record fetch_response =
  st_status_code :: int
  st_code :: string
  st_message :: string
  st_task_status :: "string field"
  st_results :: "string field list field"
  st_output_message :: "string field"

text \<open>
  The collaborators of one request. Calls that happen repeatedly are indexed by the
  number of earlier calls of the same kind: \<open>fetch b k task_id\<close> is what the \<open>k\<close>-th
  status fetch answers, \<open>reply_text b k\<close> is \<open>None\<close> when the \<open>k\<close>-th text reply is delivered
  and \<open>Some e\<close> when it raises \<open>e\<close>. A task id is what \<open>output['task_id']\<close> held: a string, or
  \<open>None\<close>.
\<close>

record backend =
  generation_call :: "ustr \<Rightarrow> llm_response call"
  async_call :: "ustr \<Rightarrow> submit_response call"
  fetch :: "nat \<Rightarrow> string option \<Rightarrow> fetch_response call"
  reply_text :: "nat \<Rightarrow> exc option"
  download :: "string \<Rightarrow> exc option"
  reply_photo :: "exc option"

text \<open>The fixed texts the bot sends, by the place that sends them.\<close>

datatype reply =
    Slow_queue_notice         \<comment> \<open>line 115\<close>
  | Timeout_notice            \<comment> \<open>line 128\<close>
  | Understanding ustr        \<comment> \<open>line 152\<close>
  | Generating_wait           \<comment> \<open>line 155\<close>
  | Generating ustr           \<comment> \<open>line 158\<close>
  | Generation_failed         \<comment> \<open>line 164\<close>
  | Send_failed exc           \<comment> \<open>line 187\<close>

datatype log =
    Qwen_error string string
  | Qwen_exception exc
  | Image_api_error string string
  | Task_created "string option"
  | Status_check_exception exc
  | Status_check_error string string
  | Task_status "string option" "string option"
  | Task_failed "string option"
  | Task_timed_out nat "string option"
  | Image_generation_exception exc
  | Enhanced_prompt ustr
  | Direct_prompt ustr
  | Image_sent ustr
  | Send_image_exception exc

datatype level = Info | Error

text \<open>
  Everything a request does that is visible outside it, in order. \<open>Replied m ok\<close> is one
  call of \<open>reply_text\<close> with text \<open>m\<close>; \<open>ok\<close> tells whether it was delivered.
\<close>

datatype event =
    Call_generation ustr
  | Call_async ustr
  | Sleep nat
  | Call_fetch "string option"
  | Replied reply bool
  | Downloaded string bool
  | Photo_replied ustr bool
  | Removed_file
  | Log level log

record world =
  trace :: "event list"
  fetches :: nat
  replies :: nat

text \<open>The local variables of the polling loop (lines 89 to 91), on top of the world.\<close>

record poll_state = world +
  elapsed :: nat
  last_status :: "string option"
  notification_sent :: bool

definition emit :: "event \<Rightarrow> 'a world_scheme \<Rightarrow> 'a world_scheme" where
  "emit e w = w\<lparr>trace := trace w @ [e]\<rparr>"

definition do_reply :: "backend \<Rightarrow> reply \<Rightarrow> 'a world_scheme \<Rightarrow> exc option \<times> 'a world_scheme" where
  "do_reply b m w =
     (reply_text b (replies w),
      w\<lparr>trace := trace w @ [Replied m (reply_text b (replies w) = None)],
        replies := Suc (replies w)\<rparr>)"

definition do_fetch :: "backend \<Rightarrow> string option \<Rightarrow> 'a world_scheme \<Rightarrow> fetch_response call \<times> 'a world_scheme" where
  "do_fetch b task_id w =
     (fetch b (fetches w) task_id,
      w\<lparr>trace := trace w @ [Call_fetch task_id], fetches := Suc (fetches w)\<rparr>)"

section \<open>Language detection\<close>

fun is_chinese :: "ustr \<Rightarrow> bool" where
  "is_chinese [] = False"
| "is_chinese (char # text) = (if 0x4E00 \<le> char \<and> char \<le> 0x9FFF then True else is_chinese text)"

section \<open>Prompt rewriting\<close>

text \<open>The characters \<open>str.strip()\<close> removes: those for which \<open>str.isspace\<close> holds.\<close>

definition is_space :: "nat \<Rightarrow> bool" where
  "is_space c \<longleftrightarrow>
     (0x09 \<le> c \<and> c \<le> 0x0D) \<or> (0x1C \<le> c \<and> c \<le> 0x20) \<or> c = 0x85 \<or> c = 0xA0 \<or>
     c = 0x1680 \<or> (0x2000 \<le> c \<and> c \<le> 0x200A) \<or> c = 0x2028 \<or> c = 0x2029 \<or>
     c = 0x202F \<or> c = 0x205F \<or> c = 0x3000"

definition strip :: "ustr \<Rightarrow> ustr" where
  "strip t = rev (dropWhile is_space (rev (dropWhile is_space t)))"

text \<open>\<open>s.replace(q, '')\<close> for a one-character \<open>q\<close>.\<close>

definition replace_empty :: "nat \<Rightarrow> ustr \<Rightarrow> ustr" where
  "replace_empty q t = filter (\<lambda>c. c \<noteq> q) t"

text \<open>The f-string of line 50.\<close>

definition user_prompt :: "ustr \<Rightarrow> ustr" where
  "user_prompt user_phrase = [0x77ED, 0x8BED, 0xFF1A] @ user_phrase"

text \<open>The f-string of line 65, returned on a status code other than 200.\<close>

definition fallback_status :: "ustr \<Rightarrow> ustr" where
  "fallback_status user_phrase =
     [0x6210, 0x90FD, 0x573A, 0x666F, 0x4E2D, 0xFF0C, 0x4EBA, 0x4EEC, 0x6B63, 0x5728,
      0x4F53, 0x9A8C, 0x27] @ user_phrase @
     [0x27, 0xFF0C, 0x771F, 0x5B9E, 0x751F, 0x6D3B, 0xFF0C, 0x7EC6, 0x8282, 0x4E30, 0x5BCC]"

text \<open>The f-string of line 68, returned when anything in the \<open>try\<close> block raises.\<close>

definition fallback_exception :: "ustr \<Rightarrow> ustr" where
  "fallback_exception user_phrase =
     [0x6210, 0x90FD, 0x8857, 0x5934, 0xFF0C, 0x5E74, 0x8F7B, 0x4EBA, 0x6B63, 0x5728,
      0x4F53, 0x73B0, 0x27] @ user_phrase @
     [0x27, 0x7684, 0x6982, 0x5FF5, 0xFF0C, 0x81EA, 0x7136, 0x5149, 0x7EBF, 0xFF0C,
      0x65E5, 0x5E38, 0x73AF, 0x5883]"

definition rewrite_prompt_with_qwen :: "backend \<Rightarrow> ustr \<Rightarrow> world \<Rightarrow> ustr \<times> world" where
  "rewrite_prompt_with_qwen b user_phrase w =
     (case generation_call b (user_prompt user_phrase) of
        Raises e \<Rightarrow>
          (fallback_exception user_phrase,
           emit (Log Error (Qwen_exception e)) (emit (Call_generation (user_prompt user_phrase)) w))
      | Returns response \<Rightarrow>
          if llm_status_code response = 200 then
            (case subscript (llm_text response) of
               Inl e \<Rightarrow>
                 (fallback_exception user_phrase,
                  emit (Log Error (Qwen_exception e))
                    (emit (Call_generation (user_prompt user_phrase)) w))
             | Inr None \<Rightarrow>
                 (fallback_exception user_phrase,
                  emit (Log Error (Qwen_exception AttributeError))
                    (emit (Call_generation (user_prompt user_phrase)) w))
             | Inr (Some text) \<Rightarrow>
                 (replace_empty 0x22 (replace_empty 0x22 (replace_empty 0x22 (strip text))),
                  emit (Call_generation (user_prompt user_phrase)) w))
          else
            (fallback_status user_phrase,
             emit (Log Error (Qwen_error (llm_code response) (llm_message response)))
               (emit (Call_generation (user_prompt user_phrase)) w)))"

section \<open>Image generation\<close>

definition max_wait :: nat where
  "max_wait = 180"

definition poll_interval :: nat where
  "poll_interval = 4"

text \<open>\<open>status_resp.output.get('task_status', 'UNKNOWN')\<close>, line 107.\<close>

definition task_status_of :: "fetch_response \<Rightarrow> string option" where
  "task_status_of status_resp = get_default (st_task_status status_resp) ''UNKNOWN''"

text \<open>Lines 109 to 111: a status that differs from the last one is logged and remembered.\<close>

definition observe_status :: "string option \<Rightarrow> string option \<Rightarrow> poll_state \<Rightarrow> poll_state" where
  "observe_status task_id task_status s =
     (if task_status \<noteq> last_status s
      then (emit (Log Info (Task_status task_id task_status)) s)\<lparr>last_status := task_status\<rparr>
      else s)"

text \<open>
  Lines 113 to 118: the flag is set after the reply inside the \<open>try\<close>, so a reply that
  raises leaves it as it was; the bare \<open>except\<close> drops the exception.
\<close>

definition notify_slow_queue :: "backend \<Rightarrow> string option \<Rightarrow> poll_state \<Rightarrow> poll_state" where
  "notify_slow_queue b task_status s =
     (if 30 \<le> elapsed s \<and> \<not> notification_sent s \<and> task_status = Some ''PENDING''
      then (case do_reply b Slow_queue_notice s of
              (None, s') \<Rightarrow> s'\<lparr>notification_sent := True\<rparr>
            | (Some e, s') \<Rightarrow> s')
      else s)"

text \<open>
  \<open>status_resp.output['results'][0]['url']\<close>, line 121, with each lookup that can raise.
  A null \<open>'url'\<close> is returned as it is.
\<close>

definition first_result_url :: "fetch_response \<Rightarrow> exc + string option" where
  "first_result_url status_resp =
     (case subscript (st_results status_resp) of
        Inl e \<Rightarrow> Inl e
      | Inr None \<Rightarrow> Inl TypeError
      | Inr (Some []) \<Rightarrow> Inl IndexError
      | Inr (Some (item # _)) \<Rightarrow> subscript item)"

text \<open>
  Lines 120 to 125. \<open>None\<close> means that the loop goes on; \<open>Some (Inr r)\<close> that the function
  returns \<open>r\<close>; \<open>Some (Inl e)\<close> that \<open>e\<close> is raised inside the outer \<open>try\<close>.
\<close>

definition finish :: "string option \<Rightarrow> fetch_response \<Rightarrow> poll_state \<Rightarrow> (exc + string option) option \<times> poll_state" where
  "finish task_status status_resp s =
     (if task_status = Some ''SUCCEEDED'' then (Some (first_result_url status_resp), s)
      else if task_status = Some ''FAILED'' then
        (Some (Inr None),
         emit (Log Error (Task_failed (get_default (st_output_message status_resp) ''Unknown error''))) s)
      else (None, s))"

text \<open>Lines 103 to 125: what one iteration does with the answer of the fetch.\<close>

definition handle_fetched :: "backend \<Rightarrow> string option \<Rightarrow> fetch_response call \<Rightarrow> poll_state \<Rightarrow> (exc + string option) option \<times> poll_state" where
  "handle_fetched b task_id answer s =
     (case answer of
        Raises e \<Rightarrow> (None, emit (Log Error (Status_check_exception e)) s)
      | Returns status_resp \<Rightarrow>
          if st_status_code status_resp \<noteq> 200 then
            (None, emit (Log Error (Status_check_error (st_code status_resp) (st_message status_resp))) s)
          else
            finish (task_status_of status_resp) status_resp
              (notify_slow_queue b (task_status_of status_resp)
                 (observe_status task_id (task_status_of status_resp) s)))"

text \<open>One iteration of the loop, lines 94 to 125.\<close>

definition poll_step :: "backend \<Rightarrow> string option \<Rightarrow> poll_state \<Rightarrow> (exc + string option) option \<times> poll_state" where
  "poll_step b task_id s =
     (case do_fetch b task_id ((emit (Sleep poll_interval) s)\<lparr>elapsed := elapsed s + poll_interval\<rparr>) of
        (answer, s') \<Rightarrow> handle_fetched b task_id answer s')"

text \<open>Lines 127 to 129, after the loop has run out.\<close>

definition after_loop :: "backend \<Rightarrow> poll_state \<Rightarrow> (exc + string option) \<times> poll_state" where
  "after_loop b s =
     (case do_reply b Timeout_notice (emit (Log Error (Task_timed_out max_wait (last_status s))) s) of
        (None, s') \<Rightarrow> (Inr None, s')
      | (Some e, s') \<Rightarrow> (Inl e, s'))"

lemma poll_step_elapsed: "elapsed (snd (poll_step b task_id s)) = elapsed s + poll_interval"
  by (simp add: poll_step_def do_fetch_def emit_def handle_fetched_def finish_def
      notify_slow_queue_def do_reply_def observe_status_def
      split: call.splits sum.splits option.splits prod.splits)

function poll_loop :: "backend \<Rightarrow> string option \<Rightarrow> poll_state \<Rightarrow> (exc + string option) \<times> poll_state" where
  "poll_loop b task_id s =
     (if elapsed s < max_wait then
        (case poll_step b task_id s of
           (None, s') \<Rightarrow> poll_loop b task_id s'
         | (Some r, s') \<Rightarrow> (r, s'))
      else after_loop b s)"
  by pat_completeness auto
termination
  apply (relation "measure (\<lambda>(b, task_id, s). max_wait - elapsed s)")
  subgoal by simp
  subgoal for b task_id s x y
    using poll_step_elapsed [of b task_id s]
    by (cases "poll_step b task_id s") (simp add: poll_interval_def)
  done

declare poll_loop.simps [simp del]

definition start_polling :: "world \<Rightarrow> poll_state" where
  "start_polling w =
     \<lparr>trace = trace w, fetches = fetches w, replies = replies w,
      elapsed = 0, last_status = None, notification_sent = False\<rparr>"

definition world_of :: "poll_state \<Rightarrow> world" where
  "world_of s = \<lparr>trace = trace s, fetches = fetches s, replies = replies s\<rparr>"

definition generate_image_from_prompt :: "backend \<Rightarrow> ustr \<Rightarrow> world \<Rightarrow> string option \<times> world" where
  "generate_image_from_prompt b prompt w =
     (case async_call b prompt of
        Raises e \<Rightarrow>
          (None, emit (Log Error (Image_generation_exception e)) (emit (Call_async prompt) w))
      | Returns resp \<Rightarrow>
          if sub_status_code resp \<noteq> 200 then
            (None, emit (Log Error (Image_api_error (sub_code resp) (sub_message resp)))
                     (emit (Call_async prompt) w))
          else
            (case subscript (sub_task_id resp) of
               Inl e \<Rightarrow>
                 (None, emit (Log Error (Image_generation_exception e))
                          (emit (Call_async prompt) w))
             | Inr task_id \<Rightarrow>
                 (case poll_loop b task_id
                         (start_polling (emit (Log Info (Task_created task_id))
                            (emit (Call_async prompt) w))) of
                    (Inl e, s) \<Rightarrow> (None, emit (Log Error (Image_generation_exception e)) (world_of s))
                  | (Inr img_url, s) \<Rightarrow> (img_url, world_of s))))"

section \<open>Telegram handlers\<close>

text \<open>\<open>text.startswith('/')\<close>.\<close>

definition startswith_slash :: "ustr \<Rightarrow> bool" where
  "startswith_slash text = (case text of [] \<Rightarrow> False | c # _ \<Rightarrow> c = 0x2F)"

text \<open>
  Lines 150 to 160 of \<open>handle_message\<close>: the prompt for the image model. A reply outside
  any \<open>try\<close> that raises ends the handler with that exception (\<open>Inl\<close>).
\<close>

definition choose_prompt :: "backend \<Rightarrow> ustr \<Rightarrow> world \<Rightarrow> (exc + ustr) \<times> world" where
  "choose_prompt b text w =
     (if is_chinese text then
        (case do_reply b (Understanding text) w of
           (Some e, w1) \<Rightarrow> (Inl e, w1)
         | (None, w1) \<Rightarrow>
             (case rewrite_prompt_with_qwen b text w1 of
                (enhanced_prompt, w2) \<Rightarrow>
                  (case do_reply b Generating_wait
                          (emit (Log Info (Enhanced_prompt enhanced_prompt)) w2) of
                     (Some e, w3) \<Rightarrow> (Inl e, w3)
                   | (None, w3) \<Rightarrow> (Inr enhanced_prompt, w3))))
      else
        (case do_reply b (Generating text) w of
           (Some e, w1) \<Rightarrow> (Inl e, w1)
         | (None, w1) \<Rightarrow> (Inr text, emit (Log Info (Direct_prompt text)) w1)))"

text \<open>The caption of line 178 or line 180; \<open>enhanced_prompt[:200]\<close> is \<open>take 200\<close>.\<close>

definition caption :: "ustr \<Rightarrow> ustr \<Rightarrow> ustr" where
  "caption text enhanced_prompt =
     (if is_chinese text
      then [0x2705, 0x20, 0x539F, 0x8BCD, 0x3A, 0x20] @ text @
           [0x0A, 0x1F3A8, 0x20, 0x573A, 0x666F, 0x3A, 0x20] @ take 200 enhanced_prompt
      else [0x2705, 0x20, 0x50, 0x72, 0x6F, 0x6D, 0x70, 0x74, 0x3A, 0x20] @ text)"

text \<open>The handler of lines 185 to 187.\<close>

definition send_failed :: "backend \<Rightarrow> exc \<Rightarrow> world \<Rightarrow> exc option \<times> world" where
  "send_failed b e w = do_reply b (Send_failed e) (emit (Log Error (Send_image_exception e)) w)"

text \<open>Lines 167 to 187: download the image, send it, remove the file.\<close>

definition send_image :: "backend \<Rightarrow> ustr \<Rightarrow> ustr \<Rightarrow> string \<Rightarrow> world \<Rightarrow> exc option \<times> world" where
  "send_image b text enhanced_prompt img_url w =
     (case download b img_url of
        Some e \<Rightarrow> send_failed b e (emit (Downloaded img_url False) w)
      | None \<Rightarrow>
          (case reply_photo b of
             Some e \<Rightarrow>
               send_failed b e
                 (emit (Photo_replied (caption text enhanced_prompt) False)
                    (emit (Downloaded img_url True) w))
           | None \<Rightarrow>
               (None,
                emit (Log Info (Image_sent text))
                  (emit Removed_file
                     (emit (Photo_replied (caption text enhanced_prompt) True)
                        (emit (Downloaded img_url True) w))))))"

text \<open>
  \<open>handle_message\<close>, on the text of the incoming message. The result is \<open>None\<close> when the
  handler returns and \<open>Some e\<close> when it raises \<open>e\<close>. \<open>not img_url\<close> holds for \<open>None\<close> and for
  the empty string.
\<close>

definition handle_message :: "backend \<Rightarrow> ustr \<Rightarrow> world \<Rightarrow> exc option \<times> world" where
  "handle_message b message_text w =
     (if strip message_text = [] \<or> startswith_slash (strip message_text) then (None, w)
      else
        (case choose_prompt b (strip message_text) w of
           (Inl e, w1) \<Rightarrow> (Some e, w1)
         | (Inr enhanced_prompt, w1) \<Rightarrow>
             (case generate_image_from_prompt b enhanced_prompt w1 of
                (None, w2) \<Rightarrow> do_reply b Generation_failed w2
              | (Some img_url, w2) \<Rightarrow>
                  if img_url = [] then do_reply b Generation_failed w2
                  else send_image b (strip message_text) enhanced_prompt img_url w2)))"

section \<open>Observations on a trace\<close>

fun is_fetch :: "event \<Rightarrow> bool" where
  "is_fetch (Call_fetch _) = True"
| "is_fetch _ = False"

fun is_generation :: "event \<Rightarrow> bool" where
  "is_generation (Call_generation _) = True"
| "is_generation _ = False"

fun is_slow_notice :: "event \<Rightarrow> bool" where
  "is_slow_notice (Replied m _) = (m = Slow_queue_notice)"
| "is_slow_notice _ = False"

fun status_of_event :: "event \<Rightarrow> string option list" where
  "status_of_event (Log _ l) = (case l of Task_status _ st \<Rightarrow> [st] | _ \<Rightarrow> [])"
| "status_of_event _ = []"

text \<open>How many status fetches a trace holds.\<close>

definition fetch_calls :: "event list \<Rightarrow> nat" where
  "fetch_calls tr = length (filter is_fetch tr)"

text \<open>How often the slow-queue notice was sent, delivered or not.\<close>

definition slow_notices :: "event list \<Rightarrow> nat" where
  "slow_notices tr = length (filter is_slow_notice tr)"

text \<open>The statuses written to the log by line 110, in order.\<close>

definition status_log :: "event list \<Rightarrow> string option list" where
  "status_log tr = concat (map status_of_event tr)"

text \<open>A fetch answer that ends the loop: status code 200 with task status SUCCEEDED or FAILED.\<close>

definition terminal :: "fetch_response call \<Rightarrow> bool" where
  "terminal answer =
     (case answer of
        Raises _ \<Rightarrow> False
      | Returns status_resp \<Rightarrow>
          st_status_code status_resp = 200 \<and>
          (task_status_of status_resp = Some ''SUCCEEDED'' \<or>
           task_status_of status_resp = Some ''FAILED''))"

text \<open>A fetch answer of a job that stays pending: a failed fetch, or the status PENDING.\<close>

definition stays_pending :: "fetch_response call \<Rightarrow> bool" where
  "stays_pending answer =
     (case answer of
        Raises _ \<Rightarrow> True
      | Returns status_resp \<Rightarrow>
          st_status_code status_resp = 200 \<longrightarrow> st_task_status status_resp = Present ''PENDING'')"

text \<open>The states in which the loop condition of line 93 is evaluated, from a start state.\<close>

inductive visits :: "backend \<Rightarrow> string option \<Rightarrow> poll_state \<Rightarrow> poll_state \<Rightarrow> bool"
  for b :: backend and task_id :: "string option" and s0 :: poll_state where
  visits_start: "visits b task_id s0 s0"
| visits_step: "visits b task_id s0 s \<Longrightarrow> elapsed s < max_wait \<Longrightarrow>
     poll_step b task_id s = (None, s') \<Longrightarrow> visits b task_id s0 s'"

text \<open>
  The condition of line 113 for the poll that is made from the loop state \<open>s\<close>: that poll
  adds the interval to \<open>elapsed\<close> and fetches the status with the next fetch.
\<close>

definition slow_queue_condition :: "backend \<Rightarrow> string option \<Rightarrow> poll_state \<Rightarrow> bool" where
  "slow_queue_condition b task_id s \<longleftrightarrow>
     30 \<le> elapsed s + poll_interval \<and> \<not> notification_sent s \<and>
     (case fetch b (fetches s) task_id of
        Raises _ \<Rightarrow> False
      | Returns status_resp \<Rightarrow>
          st_status_code status_resp = 200 \<and> task_status_of status_resp = Some ''PENDING'')"

text \<open>
  The status a fetch answer carries when the fetch succeeds (no exception, status code
  200), as a list of at most one element, and the statuses fetched successfully by the
  \<open>n\<close> fetches from the \<open>k\<close>-th on, in order.
\<close>

definition fetched_status :: "fetch_response call \<Rightarrow> string option list" where
  "fetched_status answer =
     (case answer of
        Raises _ \<Rightarrow> []
      | Returns status_resp \<Rightarrow>
          if st_status_code status_resp = 200 then [task_status_of status_resp] else [])"

fun fetched_statuses :: "backend \<Rightarrow> string option \<Rightarrow> nat \<Rightarrow> nat \<Rightarrow> string option list" where
  "fetched_statuses b task_id k 0 = []"
| "fetched_statuses b task_id k (Suc n) =
     fetched_status (fetch b k task_id) @ fetched_statuses b task_id (Suc k) n"

section \<open>Concrete backends\<close>

definition ok_submit :: submit_response where
  "ok_submit = \<lparr>sub_status_code = 200, sub_code = [], sub_message = [], sub_task_id = Present ''t1''\<rparr>"

definition rejected_submit :: submit_response where
  "rejected_submit = \<lparr>sub_status_code = 400, sub_code = ''InvalidParameter'', sub_message = [], sub_task_id = Absent\<rparr>"

definition status_response :: "string \<Rightarrow> string field list field \<Rightarrow> fetch_response" where
  "status_response st res =
     \<lparr>st_status_code = 200, st_code = [], st_message = [], st_task_status = Present st,
      st_results = res, st_output_message = Absent\<rparr>"

definition busy_llm :: llm_response where
  "busy_llm = \<lparr>llm_status_code = 429, llm_code = ''Throttling'', llm_message = [], llm_text = Absent\<rparr>"

text \<open>An answer of the rewriting service with status code 200 and the given text.\<close>

definition answering :: "ustr \<Rightarrow> llm_response" where
  "answering text = \<lparr>llm_status_code = 200, llm_code = [], llm_message = [], llm_text = Present text\<rparr>"

text \<open>
  A backend that accepts every submission with task id \<open>t1\<close>, answers the \<open>k\<close>-th fetch
  with \<open>script k\<close>, treats the \<open>k\<close>-th reply as \<open>chat k\<close> says, and whose rewriting service
  answers \<open>llm\<close>.
\<close>

definition scripted :: "llm_response call \<Rightarrow> (nat \<Rightarrow> fetch_response call) \<Rightarrow> (nat \<Rightarrow> exc option) \<Rightarrow> backend" where
  "scripted llm script chat =
     \<lparr>generation_call = (\<lambda>_. llm), async_call = (\<lambda>_. Returns ok_submit),
      fetch = (\<lambda>k _. script k), reply_text = chat, download = (\<lambda>_. None), reply_photo = None\<rparr>"

definition rejecting :: backend where
  "rejecting = (scripted (Raises RemoteError) (\<lambda>_. Raises RemoteError) (\<lambda>_. None))
                 \<lparr>async_call := (\<lambda>_. Returns rejected_submit)\<rparr>"

definition w0 :: world where
  "w0 = \<lparr>trace = [], fetches = 0, replies = 0\<rparr>"

definition succeeds_at :: "nat \<Rightarrow> string field list field \<Rightarrow> nat \<Rightarrow> fetch_response call" where
  "succeeds_at n res k =
     (if k < n then Returns (status_response ''PENDING'' Absent)
      else Returns (status_response ''SUCCEEDED'' res))"

definition always :: "string \<Rightarrow> nat \<Rightarrow> fetch_response call" where
  "always st k = Returns (status_response st Absent)"

definition four_statuses :: "string \<Rightarrow> nat \<Rightarrow> fetch_response call" where
  "four_statuses url k =
     Returns (status_response
       (if k < 2 then ''PENDING'' else if k = 2 then ''RUNNING'' else ''SUCCEEDED'')
       (Present [Present url]))"

text \<open>
  The statuses PENDING, PENDING, RUNNING, SUCCEEDED with a fetch that raises after the
  first one and a fetch with status code 500 after the second.
\<close>

definition interrupted_statuses :: "nat \<Rightarrow> fetch_response call" where
  "interrupted_statuses k =
     (if k = 1 then Raises RemoteError
      else if k = 3 then Returns ((status_response ''RUNNING'' Absent)\<lparr>st_status_code := 500\<rparr>)
      else Returns (status_response
             (if k < 3 then ''PENDING'' else if k = 4 then ''RUNNING'' else ''SUCCEEDED'')
             (Present [Present ''v''])))"

text \<open>A chat in which the first reply raises and every later one is delivered.\<close>

definition first_reply_fails :: "nat \<Rightarrow> exc option" where
  "first_reply_fails k = (if k = 0 then Some TelegramError else None)"

section \<open>Facts about one iteration and about the loop\<close>

lemma poll_step_unfold:
  "poll_step b task_id s =
     handle_fetched b task_id (fetch b (fetches s) task_id)
       (s\<lparr>elapsed := elapsed s + poll_interval,
          trace := trace s @ [Sleep poll_interval, Call_fetch task_id],
          fetches := Suc (fetches s)\<rparr>)"
  by (simp add: poll_step_def do_fetch_def emit_def)

lemma fst_finish:
  "fst (finish task_status status_resp s) =
     (if task_status = Some ''SUCCEEDED'' then Some (first_result_url status_resp)
      else if task_status = Some ''FAILED'' then Some (Inr None) else None)"
  by (simp add: finish_def)

lemma finish_world:
  "fetches (snd (finish task_status status_resp s)) = fetches s"
  "replies (snd (finish task_status status_resp s)) = replies s"
  "elapsed (snd (finish task_status status_resp s)) = elapsed s"
  "notification_sent (snd (finish task_status status_resp s)) = notification_sent s"
  by (simp_all add: finish_def emit_def split: sum.splits)

lemma finish_filter:
  "\<forall>l. \<not> P (Log Error (Task_failed l)) \<Longrightarrow>
   filter P (trace (snd (finish task_status status_resp s))) = filter P (trace s)"
  by (simp add: finish_def emit_def split: sum.splits)

lemma notify_world:
  "fetches (notify_slow_queue b task_status s) = fetches s"
  "elapsed (notify_slow_queue b task_status s) = elapsed s"
  by (simp_all add: notify_slow_queue_def do_reply_def split: option.splits)

lemma notify_filter:
  "\<forall>ok. \<not> P (Replied Slow_queue_notice ok) \<Longrightarrow>
   filter P (trace (notify_slow_queue b task_status s)) = filter P (trace s)"
  by (simp add: notify_slow_queue_def do_reply_def split: option.splits)

lemma observe_world:
  "fetches (observe_status task_id task_status s) = fetches s"
  "replies (observe_status task_id task_status s) = replies s"
  "elapsed (observe_status task_id task_status s) = elapsed s"
  "notification_sent (observe_status task_id task_status s) = notification_sent s"
  by (simp_all add: observe_status_def emit_def)

lemma observe_filter:
  "\<forall>st. \<not> P (Log Info (Task_status task_id st)) \<Longrightarrow>
   filter P (trace (observe_status task_id task_status s)) = filter P (trace s)"
  by (simp add: observe_status_def emit_def)

lemma handle_fetched_fetches: "fetches (snd (handle_fetched b task_id answer s)) = fetches s"
  by (cases answer) (simp_all add: handle_fetched_def emit_def finish_world notify_world observe_world)

lemma handle_fetched_fetch_calls:
  "filter is_fetch (trace (snd (handle_fetched b task_id answer s))) = filter is_fetch (trace s)"
  by (cases answer)
    (simp_all add: handle_fetched_def emit_def finish_filter notify_filter observe_filter)

lemma poll_step_fetches: "fetches (snd (poll_step b task_id s)) = Suc (fetches s)"
  by (simp add: poll_step_unfold handle_fetched_fetches)

lemma poll_step_fetch_calls:
  "fetch_calls (trace (snd (poll_step b task_id s))) = Suc (fetch_calls (trace s))"
  by (simp add: poll_step_unfold fetch_calls_def handle_fetched_fetch_calls)

lemma poll_step_continue:
  assumes "\<not> terminal (fetch b (fetches s) task_id)"
  shows "fst (poll_step b task_id s) = None"
proof (cases "fetch b (fetches s) task_id")
  case (Raises e)
  then show ?thesis
    by (simp add: poll_step_unfold handle_fetched_def)
next
  case (Returns status_resp)
  with assms show ?thesis
    by (simp add: poll_step_unfold handle_fetched_def fst_finish terminal_def)
qed

lemma poll_step_succeeded:
  "fetch b (fetches s) task_id = Returns r \<Longrightarrow> st_status_code r = 200 \<Longrightarrow>
   st_task_status r = Present ''SUCCEEDED'' \<Longrightarrow>
   fst (poll_step b task_id s) = Some (first_result_url r)"
  by (simp add: poll_step_unfold handle_fetched_def fst_finish task_status_of_def)

lemma poll_step_failed:
  "fetch b (fetches s) task_id = Returns r \<Longrightarrow> st_status_code r = 200 \<Longrightarrow>
   st_task_status r = Present ''FAILED'' \<Longrightarrow>
   fst (poll_step b task_id s) = Some (Inr None)"
  by (simp add: poll_step_unfold handle_fetched_def fst_finish task_status_of_def)

lemma poll_loop_step:
  "elapsed s < max_wait \<Longrightarrow> poll_step b task_id s = (None, s') \<Longrightarrow>
   poll_loop b task_id s = poll_loop b task_id s'"
  by (simp add: poll_loop.simps [of b task_id s])

lemma poll_loop_stop:
  "elapsed s < max_wait \<Longrightarrow> poll_step b task_id s = (Some r, s') \<Longrightarrow>
   poll_loop b task_id s = (r, s')"
  by (simp add: poll_loop.simps [of b task_id s])

lemma poll_loop_timeout:
  "\<not> elapsed s < max_wait \<Longrightarrow> poll_loop b task_id s = after_loop b s"
  by (simp add: poll_loop.simps [of b task_id s])

lemma poll_loop_skip:
  assumes "\<forall>k<n. \<not> terminal (fetch b (fetches s + k) task_id)"
    and "elapsed s + poll_interval * n \<le> max_wait"
  shows "\<exists>s'. poll_loop b task_id s = poll_loop b task_id s' \<and>
              visits b task_id s s' \<and>
              elapsed s' = elapsed s + poll_interval * n \<and>
              fetches s' = fetches s + n \<and>
              fetch_calls (trace s') = fetch_calls (trace s) + n"
  using assms
proof (induction n)
  case 0
  show ?case
    by (rule exI [of _ s]) (simp add: visits_start)
next
  case (Suc n)
  then obtain s1 where loop: "poll_loop b task_id s = poll_loop b task_id s1"
    and vis: "visits b task_id s s1"
    and el: "elapsed s1 = elapsed s + poll_interval * n"
    and fe: "fetches s1 = fetches s + n"
    and fc: "fetch_calls (trace s1) = fetch_calls (trace s) + n"
    by auto
  from Suc.prems el have running: "elapsed s1 < max_wait"
    by (simp add: poll_interval_def)
  from Suc.prems fe have "\<not> terminal (fetch b (fetches s1) task_id)"
    by simp
  then have cont: "fst (poll_step b task_id s1) = None"
    by (rule poll_step_continue)
  define s2 where "s2 = snd (poll_step b task_id s1)"
  with cont have step: "poll_step b task_id s1 = (None, s2)"
    by (simp add: prod_eq_iff)
  have "poll_loop b task_id s = poll_loop b task_id s2"
    using loop poll_loop_step [OF running step] by simp
  moreover have "visits b task_id s s2"
    using vis running step by (rule visits_step)
  moreover have "elapsed s2 = elapsed s + poll_interval * Suc n"
    using el by (simp add: s2_def poll_step_elapsed)
  moreover have "fetches s2 = fetches s + Suc n"
    using fe by (simp add: s2_def poll_step_fetches)
  moreover have "fetch_calls (trace s2) = fetch_calls (trace s) + Suc n"
    using fc by (simp add: s2_def poll_step_fetch_calls)
  ultimately show ?case
    by blast
qed

lemma visits_elapsed:
  "visits b task_id s0 s \<Longrightarrow> elapsed s = elapsed s0 + poll_interval * (fetches s - fetches s0) \<and> fetches s0 \<le> fetches s"
proof (induction rule: visits.induct)
  case visits_start
  show ?case by simp
next
  case (visits_step s s')
  from visits_step.hyps(3) have "s' = snd (poll_step b task_id s)"
    by simp
  then have "elapsed s' = elapsed s + poll_interval" and "fetches s' = Suc (fetches s)"
    by (simp_all add: poll_step_elapsed poll_step_fetches)
  with visits_step.IH show ?case
    by (simp add: Suc_diff_le)
qed

lemma visits_bounded:
  assumes "visits b task_id s0 s" and "elapsed s0 = 0"
  shows "elapsed s \<le> max_wait"
  using assms
proof (induction rule: visits.induct)
  case visits_start
  then show ?case by simp
next
  case (visits_step s s')
  from visits_step.hyps(1) have "poll_interval dvd elapsed s"
    using visits_elapsed [of b task_id s0 s] visits_step.prems by simp
  moreover from visits_step.hyps(3) have "elapsed s' = elapsed s + poll_interval"
    by (metis poll_step_elapsed snd_conv)
  ultimately show ?case
    using visits_step.hyps(2) by (auto simp: poll_interval_def max_wait_def dvd_def)
qed

lemma is_chinese_iff: "is_chinese text \<longleftrightarrow> (\<exists>c \<in> set text. 0x4E00 \<le> c \<and> c \<le> 0x9FFF)"
  by (induction "text") auto

lemma fallback_status_contains: "\<exists>pre suf. fallback_status user_phrase = pre @ user_phrase @ suf"
  unfolding fallback_status_def by blast

lemma fallback_exception_contains: "\<exists>pre suf. fallback_exception user_phrase = pre @ user_phrase @ suf"
  unfolding fallback_exception_def by blast

lemma stays_pending_not_terminal: "stays_pending answer \<Longrightarrow> \<not> terminal answer"
  by (cases answer) (auto simp: stays_pending_def terminal_def task_status_of_def)

lemma generate_unfold:
  assumes "async_call b prompt = Returns resp" and "sub_status_code resp = 200"
    and "subscript (sub_task_id resp) = Inr task_id"
  shows "generate_image_from_prompt b prompt w =
     (case poll_loop b task_id
             (start_polling (emit (Log Info (Task_created task_id)) (emit (Call_async prompt) w))) of
        (Inl e, s) \<Rightarrow> (None, emit (Log Error (Image_generation_exception e)) (world_of s))
      | (Inr img_url, s) \<Rightarrow> (img_url, world_of s))"
  using assms by (simp add: generate_image_from_prompt_def)

lemma start_polling_facts:
  "elapsed (start_polling (emit (Log Info (Task_created task_id)) (emit (Call_async prompt) w))) = 0"
  "fetches (start_polling (emit (Log Info (Task_created task_id)) (emit (Call_async prompt) w))) = fetches w"
  "replies (start_polling (emit (Log Info (Task_created task_id)) (emit (Call_async prompt) w))) = replies w"
  "notification_sent (start_polling (emit (Log Info (Task_created task_id)) (emit (Call_async prompt) w))) = False"
  "last_status (start_polling (emit (Log Info (Task_created task_id)) (emit (Call_async prompt) w))) = None"
  "trace (start_polling (emit (Log Info (Task_created task_id)) (emit (Call_async prompt) w))) =
     trace w @ [Call_async prompt, Log Info (Task_created task_id)]"
  by (simp_all add: start_polling_def emit_def)

lemma world_of_facts:
  "trace (world_of s) = trace s" "fetches (world_of s) = fetches s" "replies (world_of s) = replies s"
  by (simp_all add: world_of_def)

text \<open>Loop reaches the n+1-th poll.\<close>
lemma poll_loop_nth:
  assumes "\<forall>k<n. \<not> terminal (fetch b (fetches s + k) task_id)"
    and "elapsed s + poll_interval * n < max_wait"
  shows "\<exists>s'. visits b task_id s s' \<and> elapsed s' < max_wait \<and>
              elapsed s' = elapsed s + poll_interval * n \<and>
              fetches s' = fetches s + n \<and>
              fetch_calls (trace s') = fetch_calls (trace s) + n \<and>
              (\<forall>r. fst (poll_step b task_id s') = Some r \<longrightarrow>
                   poll_loop b task_id s = (r, snd (poll_step b task_id s')))"
proof -
  from assms(2) have "elapsed s + poll_interval * n \<le> max_wait"
    by simp
  with assms(1) obtain s' where loop: "poll_loop b task_id s = poll_loop b task_id s'"
    and facts: "visits b task_id s s'" "elapsed s' = elapsed s + poll_interval * n"
      "fetches s' = fetches s + n" "fetch_calls (trace s') = fetch_calls (trace s) + n"
    using poll_loop_skip [of n b s task_id] by blast
  from facts(2) assms(2) have running: "elapsed s' < max_wait"
    by simp
  have "poll_loop b task_id s = (r, snd (poll_step b task_id s'))"
    if "fst (poll_step b task_id s') = Some r" for r
  proof -
    from that have "poll_step b task_id s' = (Some r, snd (poll_step b task_id s'))"
      by (simp add: prod_eq_iff)
    with running loop show ?thesis
      by (simp add: poll_loop_stop)
  qed
  with facts running show ?thesis
    by blast
qed


lemma generate_ends_at_nth:
  assumes sub: "async_call b prompt = Returns resp" "sub_status_code resp = 200"
      "subscript (sub_task_id resp) = Inr task_id"
    and N: "1 \<le> N" "N \<le> 45"
    and before: "\<forall>k<N - 1. \<not> terminal (fetch b (fetches w + k) task_id)"
  shows "\<exists>s. fetches s = fetches w + (N - 1) \<and>
             fetch_calls (trace s) = fetch_calls (trace w) + (N - 1) \<and>
             (\<forall>r. fst (poll_step b task_id s) = Some r \<longrightarrow>
                generate_image_from_prompt b prompt w =
                  (case r of
                     Inl e \<Rightarrow> (None, emit (Log Error (Image_generation_exception e))
                                        (world_of (snd (poll_step b task_id s))))
                   | Inr img_url \<Rightarrow> (img_url, world_of (snd (poll_step b task_id s)))))"
proof -
  let ?s0 = "start_polling (emit (Log Info (Task_created task_id)) (emit (Call_async prompt) w))"
  from before have "\<forall>k<N - 1. \<not> terminal (fetch b (fetches ?s0 + k) task_id)"
    by (simp add: start_polling_facts)
  moreover from N have "elapsed ?s0 + poll_interval * (N - 1) < max_wait"
    by (simp add: start_polling_facts poll_interval_def max_wait_def)
  ultimately obtain s where s: "fetches s = fetches ?s0 + (N - 1)"
      "fetch_calls (trace s) = fetch_calls (trace ?s0) + (N - 1)"
      "\<forall>r. fst (poll_step b task_id s) = Some r \<longrightarrow>
           poll_loop b task_id ?s0 = (r, snd (poll_step b task_id s))"
    using poll_loop_nth [of "N - 1" b ?s0 task_id] by blast
  have "fetches s = fetches w + (N - 1)"
    using s(1) by (simp add: start_polling_facts)
  moreover have "fetch_calls (trace s) = fetch_calls (trace w) + (N - 1)"
    using s(2) by (simp add: start_polling_facts fetch_calls_def)
  moreover have "generate_image_from_prompt b prompt w =
      (case r of
         Inl e \<Rightarrow> (None, emit (Log Error (Image_generation_exception e))
                            (world_of (snd (poll_step b task_id s))))
       | Inr img_url \<Rightarrow> (img_url, world_of (snd (poll_step b task_id s))))"
    if "fst (poll_step b task_id s) = Some r" for r
    using that s(3) by (simp add: generate_unfold [OF sub] split: sum.splits)
  ultimately show ?thesis
    by blast
qed

lemmas run_defs = generate_image_from_prompt_def scripted_def ok_submit_def status_response_def
  start_polling_def world_of_def emit_def w0_def poll_loop.simps poll_step_unfold
  handle_fetched_def task_status_of_def observe_status_def notify_slow_queue_def do_reply_def
  finish_def first_result_url_def after_loop_def max_wait_def poll_interval_def

lemma emit_facts:
  "trace (emit e w) = trace w @ [e]" "fetches (emit e w) = fetches w" "replies (emit e w) = replies w"
  by (simp_all add: emit_def)

lemma after_loop_facts:
  "fst (after_loop b s) = (case reply_text b (replies s) of None \<Rightarrow> Inr None | Some e \<Rightarrow> Inl e)"
  "trace (snd (after_loop b s)) =
     trace s @ [Log Error (Task_timed_out max_wait (last_status s)),
                Replied Timeout_notice (reply_text b (replies s) = None)]"
  "fetches (snd (after_loop b s)) = fetches s"
  "notification_sent (snd (after_loop b s)) = notification_sent s"
  by (simp_all add: after_loop_def do_reply_def emit_def split: option.splits)

lemma generate_timeout:
  assumes sub: "async_call b prompt = Returns resp" "sub_status_code resp = 200"
      "subscript (sub_task_id resp) = Inr task_id"
    and never: "\<forall>k<45. \<not> terminal (fetch b (fetches w + k) task_id)"
  shows "\<exists>s. visits b task_id
               (start_polling (emit (Log Info (Task_created task_id)) (emit (Call_async prompt) w))) s \<and>
             elapsed s = max_wait \<and> fetches s = fetches w + 45 \<and>
             fetch_calls (trace s) = fetch_calls (trace w) + 45 \<and>
             fst (generate_image_from_prompt b prompt w) = None \<and>
             fetches (snd (generate_image_from_prompt b prompt w)) = fetches w + 45 \<and>
             trace (snd (generate_image_from_prompt b prompt w)) =
               trace s @ [Log Error (Task_timed_out max_wait (last_status s)),
                          Replied Timeout_notice (reply_text b (replies s) = None)] @
               (case reply_text b (replies s) of
                  None \<Rightarrow> [] | Some e \<Rightarrow> [Log Error (Image_generation_exception e)])"
proof -
  let ?s0 = "start_polling (emit (Log Info (Task_created task_id)) (emit (Call_async prompt) w))"
  from never have "\<forall>k<45. \<not> terminal (fetch b (fetches ?s0 + k) task_id)"
    by (simp add: start_polling_facts)
  moreover have "elapsed ?s0 + poll_interval * 45 \<le> max_wait"
    by (simp add: start_polling_facts poll_interval_def max_wait_def)
  ultimately obtain s where loop: "poll_loop b task_id ?s0 = poll_loop b task_id s"
    and s: "visits b task_id ?s0 s" "elapsed s = elapsed ?s0 + poll_interval * 45"
      "fetches s = fetches ?s0 + 45" "fetch_calls (trace s) = fetch_calls (trace ?s0) + 45"
    using poll_loop_skip [of 45 b ?s0 task_id] by blast
  from s(2) have el: "elapsed s = max_wait"
    by (simp add: start_polling_facts poll_interval_def max_wait_def)
  then have "poll_loop b task_id s = after_loop b s"
    by (simp add: poll_loop_timeout)
  with loop have run: "generate_image_from_prompt b prompt w =
     (case after_loop b s of
        (Inl e, s') \<Rightarrow> (None, emit (Log Error (Image_generation_exception e)) (world_of s'))
      | (Inr img_url, s') \<Rightarrow> (img_url, world_of s'))"
    by (simp add: generate_unfold [OF sub])
  have fw: "fetches s = fetches w + 45" and fcw: "fetch_calls (trace s) = fetch_calls (trace w) + 45"
    using s(3,4) by (simp_all add: start_polling_facts fetch_calls_def)
  have "fst (generate_image_from_prompt b prompt w) = None"
    unfolding run using after_loop_facts(1) [of b s]
    by (cases "after_loop b s") (auto split: sum.splits option.splits)
  moreover have "fetches (snd (generate_image_from_prompt b prompt w)) = fetches w + 45"
    unfolding run using after_loop_facts(3) [of b s] fw
    by (cases "after_loop b s") (auto simp: world_of_facts emit_facts split: sum.splits)
  moreover have "trace (snd (generate_image_from_prompt b prompt w)) =
               trace s @ [Log Error (Task_timed_out max_wait (last_status s)),
                          Replied Timeout_notice (reply_text b (replies s) = None)] @
               (case reply_text b (replies s) of
                  None \<Rightarrow> [] | Some e \<Rightarrow> [Log Error (Image_generation_exception e)])"
    unfolding run using after_loop_facts(1,2) [of b s]
    by (cases "after_loop b s") (auto simp: world_of_facts emit_facts split: sum.splits option.splits)
  moreover note fw fcw
  ultimately show ?thesis
    using s(1) el by blast
qed

lemma visits_from_start:
  assumes "visits b task_id s0 s" and "elapsed s0 = 0"
  shows "elapsed s \<le> max_wait \<and> elapsed s = poll_interval * (fetches s - fetches s0)"
  using visits_bounded [OF assms] visits_elapsed [OF assms(1)] assms(2) by simp


lemma status_log_append: "status_log (xs @ ys) = status_log xs @ status_log ys"
  by (simp add: status_log_def)

lemma poll_step_failed_trace:
  "fetch b (fetches s) task_id = Returns r \<Longrightarrow> st_status_code r = 200 \<Longrightarrow>
   st_task_status r = Present ''FAILED'' \<Longrightarrow>
   last (trace (snd (poll_step b task_id s))) =
     Log Error (Task_failed (get_default (st_output_message r) ''Unknown error''))"
  by (simp add: poll_step_unfold handle_fetched_def finish_def task_status_of_def emit_def)

lemma notify_sent_kept:
  "notification_sent s \<Longrightarrow> notify_slow_queue b task_status s = s"
  by (simp add: notify_slow_queue_def)

lemma notify_notices:
  "filter is_slow_notice (trace (notify_slow_queue b task_status s)) =
     filter is_slow_notice (trace s) @
     (if 30 \<le> elapsed s \<and> \<not> notification_sent s \<and> task_status = Some ''PENDING''
      then [Replied Slow_queue_notice (reply_text b (replies s) = None)] else [])"
  "notification_sent (notify_slow_queue b task_status s) \<longleftrightarrow>
     notification_sent s \<or>
     (30 \<le> elapsed s \<and> task_status = Some ''PENDING'' \<and> reply_text b (replies s) = None)"
  by (auto simp: notify_slow_queue_def do_reply_def split: option.splits)

lemma poll_step_notices:
  "filter is_slow_notice (trace (snd (poll_step b task_id s))) =
     filter is_slow_notice (trace s) @
     (if slow_queue_condition b task_id s
      then [Replied Slow_queue_notice (reply_text b (replies s) = None)] else [])"
proof (cases "fetch b (fetches s) task_id")
  case (Raises e)
  then show ?thesis
    by (simp add: poll_step_unfold handle_fetched_def emit_def slow_queue_condition_def)
next
  case (Returns status_resp)
  then show ?thesis
    by (simp add: poll_step_unfold handle_fetched_def emit_def slow_queue_condition_def
        finish_filter notify_notices observe_world observe_filter)
qed

lemma poll_step_flag:
  "notification_sent (snd (poll_step b task_id s)) \<longleftrightarrow>
     notification_sent s \<or> slow_queue_condition b task_id s \<and> reply_text b (replies s) = None"
proof (cases "fetch b (fetches s) task_id")
  case (Raises e)
  then show ?thesis
    by (simp add: poll_step_unfold handle_fetched_def emit_def slow_queue_condition_def)
next
  case (Returns status_resp)
  then show ?thesis
    by (auto simp: poll_step_unfold handle_fetched_def emit_def slow_queue_condition_def
        finish_world notify_notices observe_world)
qed

lemma poll_step_condition_continues:
  "slow_queue_condition b task_id s \<Longrightarrow> fst (poll_step b task_id s) = None"
  by (rule poll_step_continue)
    (auto simp: slow_queue_condition_def terminal_def split: call.splits)

lemma after_loop_notices:
  "filter is_slow_notice (trace (snd (after_loop b s))) = filter is_slow_notice (trace s)"
  by (simp add: after_loop_facts)

text \<open>Once the flag is set, the rest of the loop sends no notice and keeps the flag.\<close>

lemma poll_loop_notices_sent:
  "notification_sent s \<Longrightarrow>
   filter is_slow_notice (trace (snd (poll_loop b task_id s))) = filter is_slow_notice (trace s) \<and>
   notification_sent (snd (poll_loop b task_id s))"
proof (induction b task_id s rule: poll_loop.induct)
  case (1 b task_id s)
  show ?case
  proof (cases "elapsed s < max_wait")
    case False
    with "1.prems" show ?thesis
      by (simp add: poll_loop_timeout after_loop_facts)
  next
    case True
    obtain x s' where step: "poll_step b task_id s = (x, s')"
      by (cases "poll_step b task_id s")
    from "1.prems" have idle: "\<not> slow_queue_condition b task_id s"
      by (simp add: slow_queue_condition_def)
    from step poll_step_flag [of b task_id s] "1.prems" have sent: "notification_sent s'"
      by simp
    from step poll_step_notices [of b task_id s] idle
    have same: "filter is_slow_notice (trace s') = filter is_slow_notice (trace s)"
      by simp
    show ?thesis
    proof (cases x)
      case None
      from "1.IH" [OF True step [symmetric] None sent] same None True step show ?thesis
        by (simp add: poll_loop_step)
    next
      case (Some r)
      with True step sent same show ?thesis
        by (simp add: poll_loop_stop)
    qed
  qed
qed

text \<open>
  From a state with the flag unset, the notices of the rest of the loop are sends that
  failed, followed by one delivered send exactly when the flag is set at the end.
\<close>

lemma poll_loop_notices:
  "\<not> notification_sent s \<Longrightarrow>
   \<exists>m. filter is_slow_notice (trace (snd (poll_loop b task_id s))) =
         filter is_slow_notice (trace s) @ replicate m (Replied Slow_queue_notice False) @
         (if notification_sent (snd (poll_loop b task_id s))
          then [Replied Slow_queue_notice True] else []) \<and>
       ((\<forall>k. reply_text b k = None) \<longrightarrow> m = 0)"
proof (induction b task_id s rule: poll_loop.induct)
  case (1 b task_id s)
  show ?case
  proof (cases "elapsed s < max_wait")
    case False
    with "1.prems" have "filter is_slow_notice (trace (snd (poll_loop b task_id s))) =
         filter is_slow_notice (trace s) @ replicate 0 (Replied Slow_queue_notice False) @
         (if notification_sent (snd (poll_loop b task_id s))
          then [Replied Slow_queue_notice True] else [])"
      by (simp add: poll_loop_timeout after_loop_facts)
    then show ?thesis
      by blast
  next
    case True
    obtain x s' where step: "poll_step b task_id s = (x, s')"
      by (cases "poll_step b task_id s")
    note notices = poll_step_notices [of b task_id s, unfolded step, simplified]
    note flag = poll_step_flag [of b task_id s, unfolded step, simplified]
    show ?thesis
    proof (cases "slow_queue_condition b task_id s")
      case idle: False
      with notices flag "1.prems"
      have same: "filter is_slow_notice (trace s') = filter is_slow_notice (trace s)"
        and unset: "\<not> notification_sent s'"
        by simp_all
      show ?thesis
      proof (cases x)
        case None
        from "1.IH" [OF True step [symmetric] None unset] same None True step show ?thesis
          by (simp add: poll_loop_step)
      next
        case (Some r)
        with True step have "poll_loop b task_id s = (r, s')"
          by (simp add: poll_loop_stop)
        with same unset have "filter is_slow_notice (trace (snd (poll_loop b task_id s))) =
            filter is_slow_notice (trace s) @ replicate 0 (Replied Slow_queue_notice False) @
            (if notification_sent (snd (poll_loop b task_id s))
             then [Replied Slow_queue_notice True] else [])"
          by simp
        then show ?thesis
          by blast
      qed
    next
      case due: True
      with step poll_step_condition_continues [of b task_id s] have none: "x = None"
        by simp
      with True step have loop: "poll_loop b task_id s = poll_loop b task_id s'"
        by (simp add: poll_loop_step)
      show ?thesis
      proof (cases "reply_text b (replies s) = None")
        case delivered: True
        with notices flag due
        have one: "filter is_slow_notice (trace s') =
            filter is_slow_notice (trace s) @ [Replied Slow_queue_notice True]"
          and sent: "notification_sent s'"
          by simp_all
        from poll_loop_notices_sent [OF sent, of b task_id] one
        have "filter is_slow_notice (trace (snd (poll_loop b task_id s))) =
            filter is_slow_notice (trace s) @ replicate 0 (Replied Slow_queue_notice False) @
            (if notification_sent (snd (poll_loop b task_id s))
             then [Replied Slow_queue_notice True] else [])"
          by (simp add: loop)
        then show ?thesis
          by blast
      next
        case failed: False
        with notices flag due "1.prems"
        have one: "filter is_slow_notice (trace s') =
            filter is_slow_notice (trace s) @ [Replied Slow_queue_notice False]"
          and unset: "\<not> notification_sent s'"
          by simp_all
        from "1.IH" [OF True step [symmetric] none unset]
        obtain m where rest: "filter is_slow_notice (trace (snd (poll_loop b task_id s'))) =
            filter is_slow_notice (trace s') @ replicate m (Replied Slow_queue_notice False) @
            (if notification_sent (snd (poll_loop b task_id s'))
             then [Replied Slow_queue_notice True] else [])"
          by blast
        from rest one have "filter is_slow_notice (trace (snd (poll_loop b task_id s))) =
            filter is_slow_notice (trace s) @ replicate (Suc m) (Replied Slow_queue_notice False) @
            (if notification_sent (snd (poll_loop b task_id s))
             then [Replied Slow_queue_notice True] else [])"
          by (simp add: loop)
        moreover from failed have "\<not> (\<forall>k. reply_text b k = None)"
          by auto
        ultimately show ?thesis
          by blast
      qed
    qed
  qed
qed


lemma visits_after_step:
  "visits b task_id s1 s' \<Longrightarrow> elapsed s < max_wait \<Longrightarrow> poll_step b task_id s = (None, s1) \<Longrightarrow>
   visits b task_id s s'"
proof (induction rule: visits.induct)
  case visits_start
  then show ?case
    by (blast intro: visits.intros)
next
  case (visits_step s2 s3)
  then show ?case
    by (blast intro: visits.intros)
qed

lemma visits_first:
  "visits b task_id s s' \<longleftrightarrow>
     s' = s \<or>
     (elapsed s < max_wait \<and> fst (poll_step b task_id s) = None \<and>
      visits b task_id (snd (poll_step b task_id s)) s')"
proof
  assume "visits b task_id s s'"
  then show "s' = s \<or>
     (elapsed s < max_wait \<and> fst (poll_step b task_id s) = None \<and>
      visits b task_id (snd (poll_step b task_id s)) s')"
  proof (induction rule: visits.induct)
    case visits_start
    show ?case by simp
  next
    case (visits_step s2 s3)
    from visits_step.IH show ?case
    proof
      assume "s2 = s"
      with visits_step.hyps(2,3) show ?thesis
        by (simp add: visits_start)
    next
      assume "elapsed s < max_wait \<and> fst (poll_step b task_id s) = None \<and>
        visits b task_id (snd (poll_step b task_id s)) s2"
      with visits_step.hyps(2,3) show ?thesis
        by (blast intro: visits.visits_step)
    qed
  qed
next
  assume "s' = s \<or>
     (elapsed s < max_wait \<and> fst (poll_step b task_id s) = None \<and>
      visits b task_id (snd (poll_step b task_id s)) s')"
  then show "visits b task_id s s'"
  proof
    assume "s' = s"
    then show ?thesis
      by (simp add: visits_start)
  next
    assume a: "elapsed s < max_wait \<and> fst (poll_step b task_id s) = None \<and>
      visits b task_id (snd (poll_step b task_id s)) s'"
    then have "poll_step b task_id s = (None, snd (poll_step b task_id s))"
      by (simp add: prod_eq_iff)
    with a show ?thesis
      by (blast intro: visits_after_step)
  qed
qed

text \<open>No notice is sent in the rest of the loop exactly when no later poll meets the condition.\<close>

lemma poll_loop_no_notice:
  "filter is_slow_notice (trace (snd (poll_loop b task_id s))) = filter is_slow_notice (trace s) \<longleftrightarrow>
   \<not> (\<exists>s'. visits b task_id s s' \<and> elapsed s' < max_wait \<and> slow_queue_condition b task_id s')"
proof (induction b task_id s rule: poll_loop.induct)
  case (1 b task_id s)
  show ?case
  proof (cases "elapsed s < max_wait")
    case False
    then have "\<And>s'. visits b task_id s s' \<Longrightarrow> s' = s"
      by (subst (asm) visits_first) simp
    with False show ?thesis
      by (auto simp: poll_loop_timeout after_loop_facts)
  next
    case True
    obtain x s1 where step: "poll_step b task_id s = (x, s1)"
      by (cases "poll_step b task_id s")
    note notices = poll_step_notices [of b task_id s, unfolded step, simplified]
    show ?thesis
    proof (cases "slow_queue_condition b task_id s")
      case due: True
      with step poll_step_condition_continues [of b task_id s] have none: "x = None"
        by simp
      with True step have loop: "poll_loop b task_id s = poll_loop b task_id s1"
        by (simp add: poll_loop_step)
      have "\<exists>ys. filter is_slow_notice (trace (snd (poll_loop b task_id s1))) =
          filter is_slow_notice (trace s1) @ ys"
        using poll_loop_notices [of s1 b task_id] poll_loop_notices_sent [of s1 b task_id]
        by (cases "notification_sent s1") auto
      with notices due have "filter is_slow_notice (trace (snd (poll_loop b task_id s))) \<noteq>
          filter is_slow_notice (trace s)"
        by (auto simp: loop)
      moreover from True due have "\<exists>s'. visits b task_id s s' \<and> elapsed s' < max_wait \<and>
          slow_queue_condition b task_id s'"
        by (blast intro: visits_start)
      ultimately show ?thesis
        by blast
    next
      case idle: False
      with notices have same: "filter is_slow_notice (trace s1) = filter is_slow_notice (trace s)"
        by simp
      show ?thesis
      proof (cases x)
        case None
        with True step have loop: "poll_loop b task_id s = poll_loop b task_id s1"
          by (simp add: poll_loop_step)
        from None step True have later: "\<And>s'. visits b task_id s s' \<longleftrightarrow> s' = s \<or> visits b task_id s1 s'"
          by (subst visits_first) simp
        from "1.IH" [OF True step [symmetric] None] same idle show ?thesis
          by (auto simp: loop later)
      next
        case (Some r)
        with step have "\<And>s'. visits b task_id s s' \<Longrightarrow> s' = s"
          by (subst (asm) visits_first) simp
        with Some True step same idle show ?thesis
          by (auto simp: poll_loop_stop)
      qed
    qed
  qed
qed


lemma generate_notices:
  assumes "async_call b prompt = Returns resp" and "sub_status_code resp = 200"
    and "subscript (sub_task_id resp) = Inr task_id"
  shows "filter is_slow_notice (trace (snd (generate_image_from_prompt b prompt w))) =
     filter is_slow_notice (trace (snd (poll_loop b task_id
       (start_polling (emit (Log Info (Task_created task_id)) (emit (Call_async prompt) w))))))"
  by (simp add: generate_unfold [OF assms] world_of_facts emit_facts split: prod.splits sum.splits)

lemma fetched_status_cases:
  "fetched_status answer = [] \<or> (\<exists>ts. fetched_status answer = [ts])"
  by (cases answer) (simp_all add: fetched_status_def)

lemma status_log_handle_fetched:
  "status_log (trace (snd (handle_fetched b task_id answer s))) =
     status_log (trace s) @ tl (remdups_adj (last_status s # fetched_status answer))"
  "last_status (snd (handle_fetched b task_id answer s)) = last (last_status s # fetched_status answer)"
  by (cases answer;
      simp add: handle_fetched_def fetched_status_def finish_def notify_slow_queue_def do_reply_def
        observe_status_def emit_def status_log_def split: option.splits)+

lemma poll_step_status_log:
  "status_log (trace (snd (poll_step b task_id s))) =
     status_log (trace s) @ tl (remdups_adj (last_status s # fetched_status (fetch b (fetches s) task_id)))"
  "last_status (snd (poll_step b task_id s)) =
     last (last_status s # fetched_status (fetch b (fetches s) task_id))"
  by (simp_all add: poll_step_unfold status_log_handle_fetched) (simp add: status_log_def)

lemma remdups_adj_step:
  assumes "xs = [] \<or> (\<exists>x. xs = [x])"
  shows "tl (remdups_adj (l # xs @ ys)) =
     tl (remdups_adj (l # xs)) @ tl (remdups_adj (last (l # xs) # ys))"
  using assms
proof
  assume "xs = []"
  then show ?thesis by simp
next
  assume "\<exists>x. xs = [x]"
  then obtain x where xs: "xs = [x]"
    by blast
  have head: "remdups_adj (x # ys) = x # tl (remdups_adj (x # ys))"
    by (simp only: remdups_adj_Cons_alt)
  show ?thesis
  proof (cases "l = x")
    case True
    with xs show ?thesis by simp
  next
    case False
    with xs head show ?thesis by simp
  qed
qed

lemma poll_loop_fetches_mono: "fetches s \<le> fetches (snd (poll_loop b task_id s))"
proof (induction b task_id s rule: poll_loop.induct)
  case (1 b task_id s)
  show ?case
  proof (cases "elapsed s < max_wait")
    case False
    then show ?thesis
      by (simp add: poll_loop_timeout after_loop_facts)
  next
    case True
    obtain x s1 where step: "poll_step b task_id s = (x, s1)"
      by (cases "poll_step b task_id s")
    with poll_step_fetches [of b task_id s] have next_fetch: "fetches s1 = Suc (fetches s)"
      by simp
    show ?thesis
    proof (cases x)
      case None
      from "1.IH" [OF True step [symmetric] None] next_fetch None True step show ?thesis
        by (simp add: poll_loop_step)
    next
      case (Some r)
      with True step next_fetch show ?thesis
        by (simp add: poll_loop_stop)
    qed
  qed
qed

text \<open>
  The statuses the loop writes to the log: those fetched successfully, without the ones
  that repeat the status before them (for the first one: \<open>last_status\<close>).
\<close>

lemma poll_loop_status_log:
  "status_log (trace (snd (poll_loop b task_id s))) =
     status_log (trace s) @
     tl (remdups_adj (last_status s #
       fetched_statuses b task_id (fetches s) (fetches (snd (poll_loop b task_id s)) - fetches s)))"
proof (induction b task_id s rule: poll_loop.induct)
  case (1 b task_id s)
  show ?case
  proof (cases "elapsed s < max_wait")
    case False
    then show ?thesis
      by (simp add: poll_loop_timeout after_loop_facts status_log_append)
        (simp add: status_log_def)
  next
    case True
    obtain x s1 where step: "poll_step b task_id s = (x, s1)"
      by (cases "poll_step b task_id s")
    with poll_step_fetches [of b task_id s] have next_fetch: "fetches s1 = Suc (fetches s)"
      by simp
    note one = poll_step_status_log [of b task_id s, unfolded step, simplified]
    show ?thesis
    proof (cases x)
      case None
      with True step have loop: "poll_loop b task_id s = poll_loop b task_id s1"
        by (simp add: poll_loop_step)
      from poll_loop_fetches_mono [of s1 b task_id] next_fetch
      have count: "fetches (snd (poll_loop b task_id s1)) - fetches s =
          Suc (fetches (snd (poll_loop b task_id s1)) - Suc (fetches s))"
        by simp
      from "1.IH" [OF True step [symmetric] None] one next_fetch show ?thesis
        by (simp add: loop count remdups_adj_step [OF fetched_status_cases]
            del: remdups_adj.simps)
    next
      case (Some r)
      with True step have "poll_loop b task_id s = (r, s1)"
        by (simp add: poll_loop_stop)
      with one next_fetch show ?thesis
        by simp
    qed
  qed
qed


lemma fetched_statuses_snoc:
  "fetched_statuses b task_id k (Suc n) =
     fetched_statuses b task_id k n @ fetched_status (fetch b (k + n) task_id)"
  by (induction n arbitrary: k) simp_all

lemma fetched_statuses_last:
  "fetched_statuses b task_id k N = xs @ [x] \<Longrightarrow>
   \<exists>j<N. fetched_statuses b task_id k j = xs \<and> fetched_status (fetch b (k + j) task_id) = [x]"
proof (induction N)
  case 0
  then show ?case by simp
next
  case (Suc N)
  from fetched_status_cases [of "fetch b (k + N) task_id"] show ?case
  proof
    assume "fetched_status (fetch b (k + N) task_id) = []"
    with Suc.prems have "fetched_statuses b task_id k N = xs @ [x]"
      by (simp only: fetched_statuses_snoc append_Nil2)
    with Suc.IH show ?thesis
      by (blast intro: less_SucI)
  next
    assume "\<exists>ts. fetched_status (fetch b (k + N) task_id) = [ts]"
    then obtain ts where "fetched_status (fetch b (k + N) task_id) = [ts]"
      by blast
    with Suc.prems have "fetched_statuses b task_id k N = xs \<and>
        fetched_status (fetch b (k + N) task_id) = [x]"
      by (simp add: fetched_statuses_snoc del: fetched_statuses.simps)
    then show ?thesis
      by blast
  qed
qed

lemma fetched_status_in:
  "i < j \<Longrightarrow> set (fetched_status (fetch b (k + i) task_id)) \<subseteq> set (fetched_statuses b task_id k j)"
proof (induction j)
  case 0
  then show ?case by simp
next
  case (Suc j)
  then show ?case
    by (cases "i = j") (auto simp: fetched_statuses_snoc simp del: fetched_statuses.simps)
qed

lemma terminal_fetched:
  "terminal answer \<Longrightarrow>
   Some ''SUCCEEDED'' \<in> set (fetched_status answer) \<or> Some ''FAILED'' \<in> set (fetched_status answer)"
  by (cases answer) (auto simp: terminal_def fetched_status_def)

lemma fetched_succeeded:
  "fetched_status answer = [Some ''SUCCEEDED''] \<Longrightarrow>
   \<exists>r. answer = Returns r \<and> st_status_code r = 200 \<and> st_task_status r = Present ''SUCCEEDED''"
proof (cases answer)
  case (Raises e)
  assume "fetched_status answer = [Some ''SUCCEEDED'']"
  with Raises show ?thesis
    by (simp add: fetched_status_def)
next
  case (Returns r)
  assume "fetched_status answer = [Some ''SUCCEEDED'']"
  with Returns show ?thesis
    by (cases "st_task_status r")
      (auto simp: fetched_status_def task_status_of_def split: if_splits)
qed

lemma generate_status_log:
  assumes "async_call b prompt = Returns resp" and "sub_status_code resp = 200"
    and "subscript (sub_task_id resp) = Inr task_id"
  shows "status_log (trace (snd (generate_image_from_prompt b prompt w))) =
     status_log (trace w) @
     tl (remdups_adj (None #
       fetched_statuses b task_id (fetches w)
         (fetches (snd (generate_image_from_prompt b prompt w)) - fetches w)))"
proof -
  let ?s0 = "start_polling (emit (Log Info (Task_created task_id)) (emit (Call_async prompt) w))"
  have log: "status_log (trace (snd (generate_image_from_prompt b prompt w))) =
      status_log (trace (snd (poll_loop b task_id ?s0)))"
    and count: "fetches (snd (generate_image_from_prompt b prompt w)) =
      fetches (snd (poll_loop b task_id ?s0))"
    by (simp_all add: generate_unfold [OF assms] world_of_facts emit_facts status_log_def
        split: prod.splits sum.splits)
  have "status_log (trace ?s0) = status_log (trace w)"
    by (simp add: start_polling_facts status_log_def)
  with poll_loop_status_log [of b task_id ?s0] show ?thesis
    by (simp add: log count start_polling_facts)
qed

section \<open>Language detection and the prompt of a text that is not Chinese\<close>

text \<open>
  C9. \<open>is_chinese\<close> holds exactly for the strings with a code point between U+4E00 and
  U+9FFF. The text that is classified is the one line 145 leaves: the text of the message
  without surrounding white space. For a text that is not Chinese, the prompt
  \<open>handle_message\<close> chooses is the text itself (when the one reply before it is
  delivered; otherwise the handler ends with the exception of the reply), no call of the
  rewriting service is made, and the choice does not depend on what the rewriting
  service would answer, so that it is the same each time. \<open>handle_message\<close> hands
  exactly this text to \<open>generate_image_from_prompt\<close>.
\<close>

theorem other_text_passthrough:
  "(is_chinese text \<longleftrightarrow> (\<exists>c \<in> set text. 0x4E00 \<le> c \<and> c \<le> 0x9FFF)) \<and>
   (\<not> is_chinese text \<longrightarrow>
      (case reply_text b (replies w) of
         None \<Rightarrow> fst (choose_prompt b text w) = Inr text
       | Some e \<Rightarrow> fst (choose_prompt b text w) = Inl e) \<and>
      filter is_generation (trace (snd (choose_prompt b text w))) = filter is_generation (trace w) \<and>
      choose_prompt (b\<lparr>generation_call := g\<rparr>) text w = choose_prompt b text w) \<and>
   (\<not> is_chinese (strip message_text) \<and> strip message_text \<noteq> [] \<and>
    \<not> startswith_slash (strip message_text) \<and> reply_text b (replies w) = None \<longrightarrow>
      handle_message b message_text w =
        (case generate_image_from_prompt b (strip message_text)
                (emit (Log Info (Direct_prompt (strip message_text)))
                   (snd (do_reply b (Generating (strip message_text)) w))) of
           (None, w2) \<Rightarrow> do_reply b Generation_failed w2
         | (Some img_url, w2) \<Rightarrow>
             if img_url = [] then do_reply b Generation_failed w2
             else send_image b (strip message_text) (strip message_text) img_url w2))"
proof (intro conjI impI)
  show "is_chinese text \<longleftrightarrow> (\<exists>c \<in> set text. 0x4E00 \<le> c \<and> c \<le> 0x9FFF)"
    by (rule is_chinese_iff)
next
  assume "\<not> is_chinese text"
  then show "case reply_text b (replies w) of
         None \<Rightarrow> fst (choose_prompt b text w) = Inr text
       | Some e \<Rightarrow> fst (choose_prompt b text w) = Inl e"
    by (simp add: choose_prompt_def do_reply_def split: option.splits)
next
  assume "\<not> is_chinese text"
  then show "filter is_generation (trace (snd (choose_prompt b text w))) = filter is_generation (trace w)"
    by (simp add: choose_prompt_def do_reply_def emit_def split: option.splits)
next
  assume "\<not> is_chinese text"
  then show "choose_prompt (b\<lparr>generation_call := g\<rparr>) text w = choose_prompt b text w"
    by (simp add: choose_prompt_def do_reply_def split: option.splits)
next
  assume "\<not> is_chinese (strip message_text) \<and> strip message_text \<noteq> [] \<and>
    \<not> startswith_slash (strip message_text) \<and> reply_text b (replies w) = None"
  then show "handle_message b message_text w =
        (case generate_image_from_prompt b (strip message_text)
                (emit (Log Info (Direct_prompt (strip message_text)))
                   (snd (do_reply b (Generating (strip message_text)) w))) of
           (None, w2) \<Rightarrow> do_reply b Generation_failed w2
         | (Some img_url, w2) \<Rightarrow>
             if img_url = [] then do_reply b Generation_failed w2
             else send_image b (strip message_text) (strip message_text) img_url w2)"
    by (simp add: handle_message_def choose_prompt_def do_reply_def)
qed

theorem other_text_passthrough_witness:
  "\<not> is_chinese [0x63, 0x61, 0x74] \<and> is_chinese [0x63, 0x732B] \<and>
   reply_text rejecting (replies w0) = None \<and>
   fst (choose_prompt rejecting [0x63, 0x61, 0x74] w0) = Inr [0x63, 0x61, 0x74] \<and>
   filter is_generation (trace (snd (choose_prompt rejecting [0x63, 0x61, 0x74] w0))) = []"
proof -
  have other: "\<not> is_chinese [0x63, 0x61, 0x74]" and chinese: "is_chinese [0x63, 0x732B]"
    by simp_all
  have delivered: "reply_text rejecting (replies w0) = None"
    by (simp add: rejecting_def scripted_def)
  from other delivered chinese show ?thesis
    using other_text_passthrough [of "[0x63, 0x61, 0x74]" rejecting w0]
    by (simp add: w0_def)
qed

section \<open>The fallback prompt\<close>

text \<open>
  C8, as the code has it. \<open>rewrite_prompt_with_qwen\<close> always returns a prompt; no
  exception leaves it. When the call of the rewriting service raises, or answers with a
  status code other than 200, the prompt is a fixed text around the phrase: that of line
  68 after an exception, that of line 65 after a status code other than 200. It contains
  the phrase, and one error entry is written to the log. The result is the prompt alone:
  the function returns no flag that tells a fallback from a rewrite.
\<close>

theorem rewrite_fallback:
  assumes "generation_call b (user_prompt user_phrase) = Raises e \<or>
           (\<exists>r. generation_call b (user_prompt user_phrase) = Returns r \<and> llm_status_code r \<noteq> 200)"
  shows "fst (rewrite_prompt_with_qwen b user_phrase w) =
           (case generation_call b (user_prompt user_phrase) of
              Raises _ \<Rightarrow>
                [0x6210, 0x90FD, 0x8857, 0x5934, 0xFF0C, 0x5E74, 0x8F7B, 0x4EBA, 0x6B63, 0x5728,
                 0x4F53, 0x73B0, 0x27] @ user_phrase @
                [0x27, 0x7684, 0x6982, 0x5FF5, 0xFF0C, 0x81EA, 0x7136, 0x5149, 0x7EBF, 0xFF0C,
                 0x65E5, 0x5E38, 0x73AF, 0x5883]
            | Returns _ \<Rightarrow>
                [0x6210, 0x90FD, 0x573A, 0x666F, 0x4E2D, 0xFF0C, 0x4EBA, 0x4EEC, 0x6B63, 0x5728,
                 0x4F53, 0x9A8C, 0x27] @ user_phrase @
                [0x27, 0xFF0C, 0x771F, 0x5B9E, 0x751F, 0x6D3B, 0xFF0C, 0x7EC6, 0x8282, 0x4E30,
                 0x5BCC]) \<and>
         (\<exists>pre suf. fst (rewrite_prompt_with_qwen b user_phrase w) = pre @ user_phrase @ suf) \<and>
         trace (snd (rewrite_prompt_with_qwen b user_phrase w)) =
           trace w @
           [Call_generation ([0x77ED, 0x8BED, 0xFF1A] @ user_phrase),
            Log Error (case generation_call b (user_prompt user_phrase) of
                         Raises x \<Rightarrow> Qwen_exception x
                       | Returns r \<Rightarrow> Qwen_error (llm_code r) (llm_message r))]"
proof (intro conjI)
  from assms show "fst (rewrite_prompt_with_qwen b user_phrase w) =
           (case generation_call b (user_prompt user_phrase) of
              Raises _ \<Rightarrow>
                [0x6210, 0x90FD, 0x8857, 0x5934, 0xFF0C, 0x5E74, 0x8F7B, 0x4EBA, 0x6B63, 0x5728,
                 0x4F53, 0x73B0, 0x27] @ user_phrase @
                [0x27, 0x7684, 0x6982, 0x5FF5, 0xFF0C, 0x81EA, 0x7136, 0x5149, 0x7EBF, 0xFF0C,
                 0x65E5, 0x5E38, 0x73AF, 0x5883]
            | Returns _ \<Rightarrow>
                [0x6210, 0x90FD, 0x573A, 0x666F, 0x4E2D, 0xFF0C, 0x4EBA, 0x4EEC, 0x6B63, 0x5728,
                 0x4F53, 0x9A8C, 0x27] @ user_phrase @
                [0x27, 0xFF0C, 0x771F, 0x5B9E, 0x751F, 0x6D3B, 0xFF0C, 0x7EC6, 0x8282, 0x4E30,
                 0x5BCC])"
    by (auto simp: rewrite_prompt_with_qwen_def fallback_status_def fallback_exception_def)
next
  from assms show "\<exists>pre suf. fst (rewrite_prompt_with_qwen b user_phrase w) = pre @ user_phrase @ suf"
    by (auto simp: rewrite_prompt_with_qwen_def fallback_status_contains
        fallback_exception_contains)
next
  from assms show "trace (snd (rewrite_prompt_with_qwen b user_phrase w)) =
           trace w @
           [Call_generation ([0x77ED, 0x8BED, 0xFF1A] @ user_phrase),
            Log Error (case generation_call b (user_prompt user_phrase) of
                         Raises x \<Rightarrow> Qwen_exception x
                       | Returns r \<Rightarrow> Qwen_error (llm_code r) (llm_message r))]"
    by (auto simp: rewrite_prompt_with_qwen_def emit_def user_prompt_def)
qed

theorem rewrite_fallback_witness:
  "generation_call (scripted (Returns busy_llm) (\<lambda>_. Raises RemoteError) (\<lambda>_. None))
     (user_prompt [0x5FEB, 0x4E50]) = Returns busy_llm \<and>
   llm_status_code busy_llm \<noteq> 200 \<and>
   fst (rewrite_prompt_with_qwen (scripted (Returns busy_llm) (\<lambda>_. Raises RemoteError) (\<lambda>_. None))
          [0x5FEB, 0x4E50] w0) =
     [0x6210, 0x90FD, 0x573A, 0x666F, 0x4E2D, 0xFF0C, 0x4EBA, 0x4EEC, 0x6B63, 0x5728,
      0x4F53, 0x9A8C, 0x27, 0x5FEB, 0x4E50, 0x27, 0xFF0C, 0x771F, 0x5B9E, 0x751F, 0x6D3B,
      0xFF0C, 0x7EC6, 0x8282, 0x4E30, 0x5BCC] \<and>
   trace (snd (rewrite_prompt_with_qwen (scripted (Returns busy_llm) (\<lambda>_. Raises RemoteError) (\<lambda>_. None))
          [0x5FEB, 0x4E50] w0)) =
     [Call_generation [0x77ED, 0x8BED, 0xFF1A, 0x5FEB, 0x4E50],
      Log Error (Qwen_error ''Throttling'' [])]"
proof -
  let ?b = "scripted (Returns busy_llm) (\<lambda>_. Raises RemoteError) (\<lambda>_. None)"
  have call: "generation_call ?b (user_prompt [0x5FEB, 0x4E50]) = Returns busy_llm"
    by (simp add: scripted_def)
  have code: "llm_status_code busy_llm \<noteq> 200"
    by (simp add: busy_llm_def)
  from call code have failure:
    "generation_call ?b (user_prompt [0x5FEB, 0x4E50]) = Raises RemoteError \<or>
     (\<exists>r. generation_call ?b (user_prompt [0x5FEB, 0x4E50]) = Returns r \<and> llm_status_code r \<noteq> 200)"
    by blast
  note fallback = rewrite_fallback [OF failure, of w0]
  from fallback have prompt: "fst (rewrite_prompt_with_qwen ?b [0x5FEB, 0x4E50] w0) =
     [0x6210, 0x90FD, 0x573A, 0x666F, 0x4E2D, 0xFF0C, 0x4EBA, 0x4EEC, 0x6B63, 0x5728,
      0x4F53, 0x9A8C, 0x27, 0x5FEB, 0x4E50, 0x27, 0xFF0C, 0x771F, 0x5B9E, 0x751F, 0x6D3B,
      0xFF0C, 0x7EC6, 0x8282, 0x4E30, 0x5BCC]"
    by (simp add: call)
  from fallback have "trace (snd (rewrite_prompt_with_qwen ?b [0x5FEB, 0x4E50] w0)) =
     trace w0 @ [Call_generation [0x77ED, 0x8BED, 0xFF1A, 0x5FEB, 0x4E50],
      Log Error (Qwen_error (llm_code busy_llm) (llm_message busy_llm))]"
    by (simp add: call)
  then have log: "trace (snd (rewrite_prompt_with_qwen ?b [0x5FEB, 0x4E50] w0)) =
     [Call_generation [0x77ED, 0x8BED, 0xFF1A, 0x5FEB, 0x4E50],
      Log Error (Qwen_error ''Throttling'' [])]"
    by (simp add: w0_def busy_llm_def)
  from call code prompt log show ?thesis
    by blast
qed

text \<open>
  The runs that refute C8 as stated: a service that answers with status code 429 and a
  service that answers with status code 200 and the text of line 65 give the same
  result, so that the result carries no \<open>usedFallback\<close>.
\<close>

theorem used_fallback_counterexample:
  "fst (rewrite_prompt_with_qwen
          (scripted (Returns busy_llm) (\<lambda>_. Raises RemoteError) (\<lambda>_. None)) [0x5FEB, 0x4E50] w0) =
   fst (rewrite_prompt_with_qwen
          (scripted (Returns (answering (fallback_status [0x5FEB, 0x4E50])))
             (\<lambda>_. Raises RemoteError) (\<lambda>_. None)) [0x5FEB, 0x4E50] w0) \<and>
   llm_status_code busy_llm = 429 \<and>
   llm_status_code (answering (fallback_status [0x5FEB, 0x4E50])) = 200"
  by (simp add: rewrite_prompt_with_qwen_def scripted_def busy_llm_def answering_def
      fallback_status_def strip_def is_space_def replace_empty_def)

section \<open>A failed submission\<close>

text \<open>
  C7. When \<open>ImageSynthesis.async_call\<close> raises or answers with a status code other than
  200, \<open>generate_image_from_prompt\<close> returns \<open>None\<close> at once: the only events are the
  submission and one error entry in the log, so no status fetch is made and the loop
  never runs.
\<close>

theorem submission_failure:
  assumes "async_call b prompt = Raises e \<or>
           (\<exists>resp. async_call b prompt = Returns resp \<and> sub_status_code resp \<noteq> 200)"
  shows "fst (generate_image_from_prompt b prompt w) = None \<and>
         fetches (snd (generate_image_from_prompt b prompt w)) = fetches w \<and>
         fetch_calls (trace (snd (generate_image_from_prompt b prompt w))) = fetch_calls (trace w) \<and>
         (\<exists>l. trace (snd (generate_image_from_prompt b prompt w)) =
                trace w @ [Call_async prompt, Log Error l])"
  using assms by (auto simp: generate_image_from_prompt_def emit_def fetch_calls_def)

theorem submission_failure_witness:
  "async_call rejecting [0x63, 0x61, 0x74] = Returns rejected_submit \<and>
   sub_status_code rejected_submit \<noteq> 200 \<and>
   fst (generate_image_from_prompt rejecting [0x63, 0x61, 0x74] w0) = None \<and>
   fetch_calls (trace (snd (generate_image_from_prompt rejecting [0x63, 0x61, 0x74] w0))) = 0"
proof -
  have call: "async_call rejecting [0x63, 0x61, 0x74] = Returns rejected_submit"
    by (simp add: rejecting_def scripted_def)
  have code: "sub_status_code rejected_submit \<noteq> 200"
    by (simp add: rejected_submit_def)
  from call code show ?thesis
    using submission_failure [of rejecting "[0x63, 0x61, 0x74]" RemoteError w0]
    by (simp add: w0_def fetch_calls_def)
qed

section \<open>The message handler ignores empty texts and commands\<close>

text \<open>
  C10. When the text of an incoming message is empty after \<open>strip()\<close> or begins with
  \<open>/\<close>, \<open>handle_message\<close> returns at once and the world is what it was: no rewrite call,
  no submission, no fetch and no reply.
\<close>

theorem handle_message_ignores:
  "strip message_text = [] \<or> startswith_slash (strip message_text) \<Longrightarrow>
   handle_message b message_text w = (None, w)"
  by (simp add: handle_message_def)

theorem handle_message_ignores_witness:
  "startswith_slash (strip [0x20, 0x2F, 0x73, 0x20]) \<and>
   strip [0x20, 0x20, 0x0A] = [] \<and>
   handle_message rejecting [0x20, 0x2F, 0x73, 0x20] w0 = (None, w0) \<and>
   handle_message rejecting [0x20, 0x20, 0x0A] w0 = (None, w0)"
proof -
  have slash: "startswith_slash (strip [0x20, 0x2F, 0x73, 0x20])"
    by (simp add: strip_def is_space_def startswith_slash_def)
  have blank: "strip [0x20, 0x20, 0x0A] = []"
    by (simp add: strip_def is_space_def)
  from slash blank show ?thesis
    using handle_message_ignores [of "[0x20, 0x2F, 0x73, 0x20]" rejecting w0]
      handle_message_ignores [of "[0x20, 0x20, 0x0A]" rejecting w0]
    by blast
qed

section \<open>Success on the N-th poll\<close>

text \<open>
  C6. When the submission succeeds, the first \<open>N - 1\<close> status fetches are not terminal
  and the \<open>N\<close>-th one (\<open>1 \<le> N \<le> 45\<close>) reports SUCCEEDED with a first result that has a
  non-empty URL, \<open>generate_image_from_prompt\<close> returns that URL after exactly \<open>N\<close>
  fetches: nothing is fetched after the terminal status.
\<close>

theorem succeeded_on_nth_poll:
  assumes sub: "async_call b prompt = Returns resp" "sub_status_code resp = 200"
      "subscript (sub_task_id resp) = Inr task_id"
    and N: "1 \<le> N" "N \<le> 45"
    and before: "\<forall>k<N - 1. \<not> terminal (fetch b (fetches w + k) task_id)"
    and nth: "fetch b (fetches w + (N - 1)) task_id = Returns r" "st_status_code r = 200"
      "st_task_status r = Present ''SUCCEEDED''" "st_results r = Present (Present url # others)"
    and url: "url \<noteq> []"
  shows "fst (generate_image_from_prompt b prompt w) = Some url \<and> url \<noteq> [] \<and>
         fetches (snd (generate_image_from_prompt b prompt w)) = fetches w + N \<and>
         fetch_calls (trace (snd (generate_image_from_prompt b prompt w))) = fetch_calls (trace w) + N"
proof -
  from generate_ends_at_nth [OF sub N before]
  obtain s where s: "fetches s = fetches w + (N - 1)"
      "fetch_calls (trace s) = fetch_calls (trace w) + (N - 1)"
    and run: "\<And>x. fst (poll_step b task_id s) = Some x \<Longrightarrow>
        generate_image_from_prompt b prompt w =
          (case x of
             Inl e \<Rightarrow> (None, emit (Log Error (Image_generation_exception e))
                                (world_of (snd (poll_step b task_id s))))
           | Inr img_url \<Rightarrow> (img_url, world_of (snd (poll_step b task_id s))))"
    by blast
  from nth s(1) have "fst (poll_step b task_id s) = Some (Inr (Some url))"
    by (simp add: poll_step_succeeded first_result_url_def)
  then have "generate_image_from_prompt b prompt w = (Some url, world_of (snd (poll_step b task_id s)))"
    by (simp add: run)
  with s N url show ?thesis
    by (simp add: world_of_facts poll_step_fetches poll_step_fetch_calls)
qed

theorem succeeded_on_nth_poll_witness:
  "fetch (scripted (Raises RemoteError) (succeeds_at 2 (Present [Present ''u''])) (\<lambda>_. None))
       (fetches w0 + (3 - 1)) (Some ''t1'') = Returns (status_response ''SUCCEEDED'' (Present [Present ''u''])) \<and>
   fst (generate_image_from_prompt
          (scripted (Raises RemoteError) (succeeds_at 2 (Present [Present ''u''])) (\<lambda>_. None)) [0x63] w0) = Some ''u'' \<and>
   fetch_calls (trace (snd (generate_image_from_prompt
          (scripted (Raises RemoteError) (succeeds_at 2 (Present [Present ''u''])) (\<lambda>_. None)) [0x63] w0))) = 3"
proof -
  let ?b = "scripted (Raises RemoteError) (succeeds_at 2 (Present [Present ''u''])) (\<lambda>_. None)"
  have sub: "async_call ?b [0x63] = Returns ok_submit" "sub_status_code ok_submit = 200"
    "subscript (sub_task_id ok_submit) = Inr (Some ''t1'')"
    by (simp_all add: scripted_def ok_submit_def)
  have N: "1 \<le> (3::nat)" "(3::nat) \<le> 45"
    by simp_all
  have before: "\<forall>k<3 - 1. \<not> terminal (fetch ?b (fetches w0 + k) (Some ''t1''))"
    by (simp add: scripted_def succeeds_at_def terminal_def status_response_def task_status_of_def
        w0_def)
  have nth: "fetch ?b (fetches w0 + (3 - 1)) (Some ''t1'') = Returns (status_response ''SUCCEEDED'' (Present [Present ''u'']))"
    "st_status_code (status_response ''SUCCEEDED'' (Present [Present ''u''])) = 200"
    "st_task_status (status_response ''SUCCEEDED'' (Present [Present ''u''])) = Present ''SUCCEEDED''"
    "st_results (status_response ''SUCCEEDED'' (Present [Present ''u''])) = Present (Present ''u'' # [])"
    by (simp_all add: scripted_def succeeds_at_def status_response_def w0_def)
  have url: "''u'' \<noteq> []"
    by simp
  from succeeded_on_nth_poll [OF sub N before nth url] nth(1) show ?thesis
    by (simp add: w0_def fetch_calls_def)
qed

section \<open>A job that stays pending\<close>

text \<open>
  C5. When the submission succeeds and every status fetch either fails or reports
  PENDING, the loop ends: \<open>generate_image_from_prompt\<close> makes exactly 45 fetches, which is
  180 / 4 rounded up, leaves the loop with \<open>elapsed = 180\<close>, writes the timed-out entry
  with the last status, sends the timeout notice and returns \<open>None\<close>. In every state in
  which the loop condition is evaluated, \<open>elapsed\<close> is 4 times the number of fetches made
  and at most 180.
\<close>

theorem pending_forever_times_out:
  assumes sub: "async_call b prompt = Returns resp" "sub_status_code resp = 200"
      "subscript (sub_task_id resp) = Inr task_id"
    and pending: "\<forall>k. stays_pending (fetch b k task_id)"
  shows "fst (generate_image_from_prompt b prompt w) = None \<and>
         fetch_calls (trace (snd (generate_image_from_prompt b prompt w))) = fetch_calls (trace w) + 45 \<and>
         (max_wait + poll_interval - 1) div poll_interval = 45 \<and>
         (\<exists>s. visits b task_id
                 (start_polling (emit (Log Info (Task_created task_id)) (emit (Call_async prompt) w))) s \<and>
               elapsed s = max_wait \<and> fetches s = fetches w + 45 \<and>
               trace (snd (generate_image_from_prompt b prompt w)) =
                 trace s @ [Log Error (Task_timed_out max_wait (last_status s)),
                            Replied Timeout_notice (reply_text b (replies s) = None)] @
                 (case reply_text b (replies s) of
                    None \<Rightarrow> [] | Some e \<Rightarrow> [Log Error (Image_generation_exception e)])) \<and>
         (\<forall>s. visits b task_id
                 (start_polling (emit (Log Info (Task_created task_id)) (emit (Call_async prompt) w))) s \<longrightarrow>
               elapsed s \<le> max_wait \<and> elapsed s = poll_interval * (fetches s - fetches w))"
proof -
  let ?s0 = "start_polling (emit (Log Info (Task_created task_id)) (emit (Call_async prompt) w))"
  from pending have "\<forall>k<45. \<not> terminal (fetch b (fetches w + k) task_id)"
    by (simp add: stays_pending_not_terminal)
  from generate_timeout [OF sub this]
  obtain s where s: "visits b task_id ?s0 s" "elapsed s = max_wait" "fetches s = fetches w + 45"
      "fetch_calls (trace s) = fetch_calls (trace w) + 45"
      "fst (generate_image_from_prompt b prompt w) = None"
      "trace (snd (generate_image_from_prompt b prompt w)) =
         trace s @ [Log Error (Task_timed_out max_wait (last_status s)),
                    Replied Timeout_notice (reply_text b (replies s) = None)] @
         (case reply_text b (replies s) of
            None \<Rightarrow> [] | Some e \<Rightarrow> [Log Error (Image_generation_exception e)])"
    by blast
  have calls: "fetch_calls (trace (snd (generate_image_from_prompt b prompt w))) = fetch_calls (trace w) + 45"
    using s(4) by (simp add: s(6) fetch_calls_def split: option.splits)
  have polls: "(max_wait + poll_interval - 1) div poll_interval = 45"
    by (simp add: max_wait_def poll_interval_def)
  have bound: "elapsed s' \<le> max_wait \<and> elapsed s' = poll_interval * (fetches s' - fetches w)"
    if "visits b task_id ?s0 s'" for s'
    using visits_from_start [OF that] by (simp add: start_polling_facts)
  from s(1,2,3,5,6) calls polls bound show ?thesis
    by blast
qed

theorem pending_forever_times_out_witness:
  "(\<forall>k. stays_pending (fetch (scripted (Raises RemoteError) (always ''PENDING'') (\<lambda>_. None)) k (Some ''t1''))) \<and>
   fst (generate_image_from_prompt
          (scripted (Raises RemoteError) (always ''PENDING'') (\<lambda>_. None)) [0x63] w0) = None \<and>
   fetch_calls (trace (snd (generate_image_from_prompt
          (scripted (Raises RemoteError) (always ''PENDING'') (\<lambda>_. None)) [0x63] w0))) = 45"
proof -
  let ?b = "scripted (Raises RemoteError) (always ''PENDING'') (\<lambda>_. None)"
  have sub: "async_call ?b [0x63] = Returns ok_submit" "sub_status_code ok_submit = 200"
    "subscript (sub_task_id ok_submit) = Inr (Some ''t1'')"
    by (simp_all add: scripted_def ok_submit_def)
  have pending: "\<forall>k. stays_pending (fetch ?b k (Some ''t1''))"
    by (simp add: scripted_def always_def stays_pending_def status_response_def)
  from pending_forever_times_out [OF sub pending, of w0] pending show ?thesis
    by (simp add: w0_def fetch_calls_def)
qed

section \<open>A success without results\<close>

text \<open>
  C4, as the code has it. When the \<open>N\<close>-th status fetch (\<open>1 \<le> N \<le> 45\<close>, none terminal
  before) reports SUCCEEDED with an empty result list, the index error of line 121 does
  not leave \<open>generate_image_from_prompt\<close>: the handler of line 131 catches it, writes it
  to the log as an image generation exception and the function returns \<open>None\<close>, the value
  of every failure, after \<open>N\<close> fetches.
\<close>

theorem empty_results_caught:
  assumes sub: "async_call b prompt = Returns resp" "sub_status_code resp = 200"
      "subscript (sub_task_id resp) = Inr task_id"
    and N: "1 \<le> N" "N \<le> 45"
    and before: "\<forall>k<N - 1. \<not> terminal (fetch b (fetches w + k) task_id)"
    and nth: "fetch b (fetches w + (N - 1)) task_id = Returns r" "st_status_code r = 200"
      "st_task_status r = Present ''SUCCEEDED''" "st_results r = Present []"
  shows "fst (generate_image_from_prompt b prompt w) = None \<and>
         fetch_calls (trace (snd (generate_image_from_prompt b prompt w))) = fetch_calls (trace w) + N \<and>
         last (trace (snd (generate_image_from_prompt b prompt w))) =
           Log Error (Image_generation_exception IndexError)"
proof -
  from generate_ends_at_nth [OF sub N before]
  obtain s where s: "fetches s = fetches w + (N - 1)"
      "fetch_calls (trace s) = fetch_calls (trace w) + (N - 1)"
    and run: "\<And>x. fst (poll_step b task_id s) = Some x \<Longrightarrow>
        generate_image_from_prompt b prompt w =
          (case x of
             Inl e \<Rightarrow> (None, emit (Log Error (Image_generation_exception e))
                                (world_of (snd (poll_step b task_id s))))
           | Inr img_url \<Rightarrow> (img_url, world_of (snd (poll_step b task_id s))))"
    by blast
  from nth s(1) have "fst (poll_step b task_id s) = Some (Inl IndexError)"
    by (simp add: poll_step_succeeded first_result_url_def)
  then have "generate_image_from_prompt b prompt w =
      (None, emit (Log Error (Image_generation_exception IndexError))
               (world_of (snd (poll_step b task_id s))))"
    by (simp add: run)
  with s N show ?thesis
    using poll_step_fetch_calls [of b task_id s]
    by (simp add: world_of_facts emit_facts fetch_calls_def)
qed

theorem empty_results_caught_witness:
  "fetch (scripted (Raises RemoteError) (succeeds_at 1 (Present [])) (\<lambda>_. None)) (fetches w0 + (2 - 1)) (Some ''t1'') =
     Returns (status_response ''SUCCEEDED'' (Present [])) \<and>
   fst (generate_image_from_prompt
          (scripted (Raises RemoteError) (succeeds_at 1 (Present [])) (\<lambda>_. None)) [0x63] w0) = None \<and>
   fetch_calls (trace (snd (generate_image_from_prompt
          (scripted (Raises RemoteError) (succeeds_at 1 (Present [])) (\<lambda>_. None)) [0x63] w0))) = 2"
proof -
  let ?b = "scripted (Raises RemoteError) (succeeds_at 1 (Present [])) (\<lambda>_. None)"
  have sub: "async_call ?b [0x63] = Returns ok_submit" "sub_status_code ok_submit = 200"
    "subscript (sub_task_id ok_submit) = Inr (Some ''t1'')"
    by (simp_all add: scripted_def ok_submit_def)
  have N: "1 \<le> (2::nat)" "(2::nat) \<le> 45"
    by simp_all
  have before: "\<forall>k<2 - 1. \<not> terminal (fetch ?b (fetches w0 + k) (Some ''t1''))"
    by (simp add: scripted_def succeeds_at_def terminal_def status_response_def task_status_of_def
        w0_def)
  have nth: "fetch ?b (fetches w0 + (2 - 1)) (Some ''t1'') = Returns (status_response ''SUCCEEDED'' (Present []))"
    "st_status_code (status_response ''SUCCEEDED'' (Present [])) = 200"
    "st_task_status (status_response ''SUCCEEDED'' (Present [])) = Present ''SUCCEEDED''"
    "st_results (status_response ''SUCCEEDED'' (Present [])) = Present []"
    by (simp_all add: scripted_def succeeds_at_def status_response_def w0_def)
  from empty_results_caught [OF sub N before nth] nth(1) show ?thesis
    by (simp add: w0_def fetch_calls_def)
qed

text \<open>
  The run that refutes C4 as stated: the failure is the one of the catch-all handler, and
  no failed-task entry is written.
\<close>

theorem empty_results_counterexample:
  "trace (snd (generate_image_from_prompt
     (scripted (Raises RemoteError) (succeeds_at 0 (Present [])) (\<lambda>_. None)) [0x63] w0)) =
   [Call_async [0x63], Log Info (Task_created (Some ''t1'')), Sleep 4, Call_fetch (Some ''t1''),
    Log Info (Task_status (Some ''t1'') (Some ''SUCCEEDED'')), Log Error (Image_generation_exception IndexError)] \<and>
   (\<forall>l. Log Error (Task_failed l) \<notin> set (trace (snd (generate_image_from_prompt
     (scripted (Raises RemoteError) (succeeds_at 0 (Present [])) (\<lambda>_. None)) [0x63] w0))))"
  by (simp add: run_defs succeeds_at_def)

section \<open>The failures share one return value\<close>

text \<open>
  C2, as the code has it. \<open>generate_image_from_prompt\<close> returns a URL or \<open>None\<close>. A failed
  submission, a job reported FAILED and a timeout all return \<open>None\<close>, with no reason in
  the result. The timeout differs from the reported failure in its effects only: the
  reported failure ends with the failed-task entry that carries the message of the
  backend, the timeout writes the timed-out entry that carries the last observed status
  and sends the timeout notice.
\<close>

theorem failures_return_none:
  "(async_call b prompt = Raises e \<or>
    (\<exists>resp. async_call b prompt = Returns resp \<and> sub_status_code resp \<noteq> 200) \<longrightarrow>
      fst (generate_image_from_prompt b prompt w) = None) \<and>
   (async_call b prompt = Returns resp \<and> sub_status_code resp = 200 \<and>
    subscript (sub_task_id resp) = Inr task_id \<and> 1 \<le> N \<and> N \<le> 45 \<and>
    (\<forall>k<N - 1. \<not> terminal (fetch b (fetches w + k) task_id)) \<and>
    fetch b (fetches w + (N - 1)) task_id = Returns r \<and> st_status_code r = 200 \<and>
    st_task_status r = Present ''FAILED'' \<longrightarrow>
      fst (generate_image_from_prompt b prompt w) = None \<and>
      last (trace (snd (generate_image_from_prompt b prompt w))) =
        Log Error (Task_failed (get_default (st_output_message r) ''Unknown error''))) \<and>
   (async_call b prompt = Returns resp \<and> sub_status_code resp = 200 \<and>
    subscript (sub_task_id resp) = Inr task_id \<and>
    (\<forall>k<45. \<not> terminal (fetch b (fetches w + k) task_id)) \<longrightarrow>
      fst (generate_image_from_prompt b prompt w) = None \<and>
      (\<exists>s. visits b task_id
              (start_polling (emit (Log Info (Task_created task_id)) (emit (Call_async prompt) w))) s \<and>
            elapsed s = max_wait \<and>
            trace (snd (generate_image_from_prompt b prompt w)) =
              trace s @ [Log Error (Task_timed_out max_wait (last_status s)),
                         Replied Timeout_notice (reply_text b (replies s) = None)] @
              (case reply_text b (replies s) of
                 None \<Rightarrow> [] | Some e \<Rightarrow> [Log Error (Image_generation_exception e)])))"
proof (intro conjI impI)
  assume "async_call b prompt = Raises e \<or>
    (\<exists>resp. async_call b prompt = Returns resp \<and> sub_status_code resp \<noteq> 200)"
  then show "fst (generate_image_from_prompt b prompt w) = None"
    by (auto simp: generate_image_from_prompt_def)
next
  assume a: "async_call b prompt = Returns resp \<and> sub_status_code resp = 200 \<and>
    subscript (sub_task_id resp) = Inr task_id \<and> 1 \<le> N \<and> N \<le> 45 \<and>
    (\<forall>k<N - 1. \<not> terminal (fetch b (fetches w + k) task_id)) \<and>
    fetch b (fetches w + (N - 1)) task_id = Returns r \<and> st_status_code r = 200 \<and>
    st_task_status r = Present ''FAILED''"
  then have sub: "async_call b prompt = Returns resp" "sub_status_code resp = 200"
      "subscript (sub_task_id resp) = Inr task_id"
    and N: "1 \<le> N" "N \<le> 45"
    and before: "\<forall>k<N - 1. \<not> terminal (fetch b (fetches w + k) task_id)"
    and nth: "fetch b (fetches w + (N - 1)) task_id = Returns r" "st_status_code r = 200"
      "st_task_status r = Present ''FAILED''"
    by blast+
  from generate_ends_at_nth [OF sub N before]
  obtain s where s: "fetches s = fetches w + (N - 1)"
    and run: "\<And>x. fst (poll_step b task_id s) = Some x \<Longrightarrow>
        generate_image_from_prompt b prompt w =
          (case x of
             Inl e \<Rightarrow> (None, emit (Log Error (Image_generation_exception e))
                                (world_of (snd (poll_step b task_id s))))
           | Inr img_url \<Rightarrow> (img_url, world_of (snd (poll_step b task_id s))))"
    by blast
  from nth s have "fst (poll_step b task_id s) = Some (Inr None)"
    by (simp add: poll_step_failed)
  then have result: "generate_image_from_prompt b prompt w = (None, world_of (snd (poll_step b task_id s)))"
    by (simp add: run)
  from result show "fst (generate_image_from_prompt b prompt w) = None"
    by simp
  from result nth s show "last (trace (snd (generate_image_from_prompt b prompt w))) =
        Log Error (Task_failed (get_default (st_output_message r) ''Unknown error''))"
    by (simp add: world_of_facts poll_step_failed_trace)
next
  assume a: "async_call b prompt = Returns resp \<and> sub_status_code resp = 200 \<and>
    subscript (sub_task_id resp) = Inr task_id \<and>
    (\<forall>k<45. \<not> terminal (fetch b (fetches w + k) task_id))"
  then have sub: "async_call b prompt = Returns resp" "sub_status_code resp = 200"
      "subscript (sub_task_id resp) = Inr task_id"
    and never: "\<forall>k<45. \<not> terminal (fetch b (fetches w + k) task_id)"
    by blast+
  from generate_timeout [OF sub never] show "fst (generate_image_from_prompt b prompt w) = None"
    by blast
  from generate_timeout [OF sub never]
  show "\<exists>s. visits b task_id
              (start_polling (emit (Log Info (Task_created task_id)) (emit (Call_async prompt) w))) s \<and>
            elapsed s = max_wait \<and>
            trace (snd (generate_image_from_prompt b prompt w)) =
              trace s @ [Log Error (Task_timed_out max_wait (last_status s)),
                         Replied Timeout_notice (reply_text b (replies s) = None)] @
              (case reply_text b (replies s) of
                 None \<Rightarrow> [] | Some e \<Rightarrow> [Log Error (Image_generation_exception e)])"
    by blast
qed

theorem failures_return_none_witness:
  "fst (generate_image_from_prompt rejecting [0x63] w0) = None \<and>
   fst (generate_image_from_prompt
          (scripted (Raises RemoteError) (always ''FAILED'') (\<lambda>_. Some TelegramError)) [0x63] w0) = None \<and>
   last (trace (snd (generate_image_from_prompt
          (scripted (Raises RemoteError) (always ''FAILED'') (\<lambda>_. Some TelegramError)) [0x63] w0))) =
     Log Error (Task_failed (Some ''Unknown error'')) \<and>
   fst (generate_image_from_prompt
          (scripted (Raises RemoteError) (always ''RUNNING'') (\<lambda>_. Some TelegramError)) [0x63] w0) = None"
proof -
  let ?f = "scripted (Raises RemoteError) (always ''FAILED'') (\<lambda>_. Some TelegramError)"
  let ?t = "scripted (Raises RemoteError) (always ''RUNNING'') (\<lambda>_. Some TelegramError)"
  have "async_call rejecting [0x63] = Returns rejected_submit \<and> sub_status_code rejected_submit \<noteq> 200"
    by (simp add: rejecting_def scripted_def rejected_submit_def)
  then have rejected: "async_call rejecting [0x63] = Raises RemoteError \<or>
      (\<exists>resp. async_call rejecting [0x63] = Returns resp \<and> sub_status_code resp \<noteq> 200)"
    by blast
  have failed: "async_call ?f [0x63] = Returns ok_submit \<and> sub_status_code ok_submit = 200 \<and>
      subscript (sub_task_id ok_submit) = Inr (Some ''t1'') \<and> 1 \<le> (1::nat) \<and> (1::nat) \<le> 45 \<and>
      (\<forall>k<1 - 1. \<not> terminal (fetch ?f (fetches w0 + k) (Some ''t1''))) \<and>
      fetch ?f (fetches w0 + (1 - 1)) (Some ''t1'') = Returns (status_response ''FAILED'' Absent) \<and>
      st_status_code (status_response ''FAILED'' Absent) = 200 \<and>
      st_task_status (status_response ''FAILED'' Absent) = Present ''FAILED''"
    by (simp add: scripted_def ok_submit_def always_def status_response_def)
  have timeout: "async_call ?t [0x63] = Returns ok_submit \<and> sub_status_code ok_submit = 200 \<and>
      subscript (sub_task_id ok_submit) = Inr (Some ''t1'') \<and>
      (\<forall>k<45. \<not> terminal (fetch ?t (fetches w0 + k) (Some ''t1'')))"
    by (simp add: scripted_def ok_submit_def always_def status_response_def terminal_def
        task_status_of_def)
  from rejected
    failures_return_none [where b = rejecting and prompt = "[0x63]" and w = w0 and e = RemoteError]
  have one: "fst (generate_image_from_prompt rejecting [0x63] w0) = None"
    by blast
  from failed
    failures_return_none [where b = ?f and prompt = "[0x63]" and w = w0 and resp = ok_submit
      and task_id = "Some ''t1''" and N = 1 and r = "status_response ''FAILED'' Absent"]
  have two: "fst (generate_image_from_prompt ?f [0x63] w0) = None \<and>
      last (trace (snd (generate_image_from_prompt ?f [0x63] w0))) =
        Log Error (Task_failed (get_default (st_output_message (status_response ''FAILED'' Absent))
          ''Unknown error''))"
    by blast
  from timeout
    failures_return_none [where b = ?t and prompt = "[0x63]" and w = w0 and resp = ok_submit
      and task_id = "Some ''t1''"]
  have three: "fst (generate_image_from_prompt ?t [0x63] w0) = None"
    by blast
  from one two three show ?thesis
    by (simp add: status_response_def)
qed

text \<open>
  The runs that refute C2 as stated: a job that never leaves PENDING and a job reported
  FAILED give the same result.
\<close>

theorem outcomes_counterexample:
  "fst (generate_image_from_prompt
          (scripted (Raises RemoteError) (always ''PENDING'') (\<lambda>_. None)) [0x63] w0) =
   fst (generate_image_from_prompt
          (scripted (Raises RemoteError) (always ''FAILED'') (\<lambda>_. None)) [0x63] w0)"
proof -
  let ?p = "scripted (Raises RemoteError) (always ''PENDING'') (\<lambda>_. None)"
  have sub: "async_call ?p [0x63] = Returns ok_submit" "sub_status_code ok_submit = 200"
    "subscript (sub_task_id ok_submit) = Inr (Some ''t1'')"
    by (simp_all add: scripted_def ok_submit_def)
  have "\<forall>k<45. \<not> terminal (fetch ?p (fetches w0 + k) (Some ''t1''))"
    by (simp add: scripted_def always_def status_response_def terminal_def task_status_of_def)
  from generate_timeout [OF sub this] have "fst (generate_image_from_prompt ?p [0x63] w0) = None"
    by blast
  moreover have "fst (generate_image_from_prompt
      (scripted (Raises RemoteError) (always ''FAILED'') (\<lambda>_. None)) [0x63] w0) = None"
    by (simp add: run_defs always_def)
  ultimately show ?thesis
    by simp
qed

section \<open>The statuses written to the log\<close>

text \<open>
  C3, as the code has it. The statuses written to the log are the statuses fetched
  successfully (no exception, status code 200), in order, without each one that equals
  the status fetched before it; the first one is compared with the \<open>None\<close> that
  \<open>last_status\<close> starts with. So when the statuses fetched successfully by the first
  \<open>N \<le> 45\<close> polls are PENDING, PENDING, RUNNING and SUCCEEDED, whatever fetches fail in
  between, exactly three statuses are written: PENDING, RUNNING and SUCCEEDED. The
  repeated status writes nothing; the first status is written.
\<close>

theorem status_log_of_four:
  assumes sub: "async_call b prompt = Returns resp" "sub_status_code resp = 200"
      "subscript (sub_task_id resp) = Inr task_id"
  shows "status_log (trace (snd (generate_image_from_prompt b prompt w))) =
           status_log (trace w) @
           tl (remdups_adj (None #
             fetched_statuses b task_id (fetches w)
               (fetches (snd (generate_image_from_prompt b prompt w)) - fetches w))) \<and>
         (N \<le> 45 \<and>
          fetched_statuses b task_id (fetches w) N =
            [Some ''PENDING'', Some ''PENDING'', Some ''RUNNING'', Some ''SUCCEEDED''] \<longrightarrow>
            status_log (trace (snd (generate_image_from_prompt b prompt w))) =
              status_log (trace w) @ [Some ''PENDING'', Some ''RUNNING'', Some ''SUCCEEDED''])"
proof (intro conjI impI)
  show general: "status_log (trace (snd (generate_image_from_prompt b prompt w))) =
           status_log (trace w) @
           tl (remdups_adj (None #
             fetched_statuses b task_id (fetches w)
               (fetches (snd (generate_image_from_prompt b prompt w)) - fetches w)))"
    by (rule generate_status_log [OF sub])
  assume a: "N \<le> 45 \<and>
          fetched_statuses b task_id (fetches w) N =
            [Some ''PENDING'', Some ''PENDING'', Some ''RUNNING'', Some ''SUCCEEDED'']"
  then have "fetched_statuses b task_id (fetches w) N =
      [Some ''PENDING'', Some ''PENDING'', Some ''RUNNING''] @ [Some ''SUCCEEDED'']"
    by simp
  from fetched_statuses_last [OF this]
  obtain j where j: "j < N"
    and first: "fetched_statuses b task_id (fetches w) j =
      [Some ''PENDING'', Some ''PENDING'', Some ''RUNNING'']"
    and final: "fetched_status (fetch b (fetches w + j) task_id) = [Some ''SUCCEEDED'']"
    by blast
  from fetched_succeeded [OF final]
  obtain r where nth: "fetch b (fetches w + j) task_id = Returns r" "st_status_code r = 200"
      "st_task_status r = Present ''SUCCEEDED''"
    by blast
  have before: "\<forall>k<Suc j - 1. \<not> terminal (fetch b (fetches w + k) task_id)"
  proof (intro allI impI)
    fix k
    assume "k < Suc j - 1"
    then have "set (fetched_status (fetch b (fetches w + k) task_id)) \<subseteq>
        {Some ''PENDING'', Some ''RUNNING''}"
      using fetched_status_in [of k j b "fetches w" task_id] first by auto
    then show "\<not> terminal (fetch b (fetches w + k) task_id)"
      using terminal_fetched [of "fetch b (fetches w + k) task_id"] by auto
  qed
  from j a have N: "1 \<le> Suc j" "Suc j \<le> 45"
    by simp_all
  from generate_ends_at_nth [OF sub N before]
  obtain s where s: "fetches s = fetches w + (Suc j - 1)"
    and run: "\<And>x. fst (poll_step b task_id s) = Some x \<Longrightarrow>
        generate_image_from_prompt b prompt w =
          (case x of
             Inl e \<Rightarrow> (None, emit (Log Error (Image_generation_exception e))
                                (world_of (snd (poll_step b task_id s))))
           | Inr img_url \<Rightarrow> (img_url, world_of (snd (poll_step b task_id s))))"
    by blast
  from nth s have "fst (poll_step b task_id s) = Some (first_result_url r)"
    by (simp add: poll_step_succeeded)
  from run [OF this] s
  have "fetches (snd (generate_image_from_prompt b prompt w)) = fetches w + Suc j"
    by (simp add: world_of_facts emit_facts poll_step_fetches split: sum.splits)
  with first final
  have "fetched_statuses b task_id (fetches w)
      (fetches (snd (generate_image_from_prompt b prompt w)) - fetches w) =
      [Some ''PENDING'', Some ''PENDING'', Some ''RUNNING'', Some ''SUCCEEDED'']"
    by (simp add: fetched_statuses_snoc del: fetched_statuses.simps)
  with general show "status_log (trace (snd (generate_image_from_prompt b prompt w))) =
      status_log (trace w) @ [Some ''PENDING'', Some ''RUNNING'', Some ''SUCCEEDED'']"
    by simp
qed

theorem status_log_of_four_witness:
  "fetched_statuses (scripted (Returns busy_llm) interrupted_statuses (\<lambda>_. Some TelegramError))
     (Some ''t1'') (fetches w0) 6 =
     [Some ''PENDING'', Some ''PENDING'', Some ''RUNNING'', Some ''SUCCEEDED''] \<and>
   status_log (trace (snd (generate_image_from_prompt
     (scripted (Returns busy_llm) interrupted_statuses (\<lambda>_. Some TelegramError)) [0x64] w0))) =
     [Some ''PENDING'', Some ''RUNNING'', Some ''SUCCEEDED'']"
proof -
  let ?b = "scripted (Returns busy_llm) interrupted_statuses (\<lambda>_. Some TelegramError)"
  have sub: "async_call ?b [0x64] = Returns ok_submit" "sub_status_code ok_submit = 200"
    "subscript (sub_task_id ok_submit) = Inr (Some ''t1'')"
    by (simp_all add: scripted_def ok_submit_def)
  have fetched: "fetched_statuses ?b (Some ''t1'') (fetches w0) 6 =
      [Some ''PENDING'', Some ''PENDING'', Some ''RUNNING'', Some ''SUCCEEDED'']"
    by (simp add: eval_nat_numeral scripted_def interrupted_statuses_def fetched_status_def
        status_response_def task_status_of_def w0_def)
  have bound: "(6::nat) \<le> 45"
    by simp
  from status_log_of_four [OF sub, of w0 6] bound fetched
  have "status_log (trace (snd (generate_image_from_prompt ?b [0x64] w0))) =
      status_log (trace w0) @ [Some ''PENDING'', Some ''RUNNING'', Some ''SUCCEEDED'']"
    by blast
  moreover have "status_log (trace w0) = []"
    by (simp add: w0_def status_log_def)
  ultimately show ?thesis
    using fetched by simp
qed

text \<open>The run that refutes C3 as stated: three statuses are written, the first one too.\<close>

theorem status_log_counterexample:
  "status_log (trace (snd (generate_image_from_prompt
     (scripted (Raises RemoteError) (four_statuses ''u'') (\<lambda>_. None)) [0x63] w0))) =
     [Some ''PENDING'', Some ''RUNNING'', Some ''SUCCEEDED''] \<and>
   length (status_log (trace (snd (generate_image_from_prompt
     (scripted (Raises RemoteError) (four_statuses ''u'') (\<lambda>_. None)) [0x63] w0)))) \<noteq> 2"
  by (simp add: run_defs status_log_def four_statuses_def)

section \<open>The slow-queue notice\<close>

text \<open>
  C1, as the code has it. A poll sends the slow-queue notice exactly when, at that poll,
  \<open>elapsed\<close> has reached 30, the flag \<open>notification_sent\<close> is unset and the status fetched
  is PENDING; it sets the flag exactly when that reply is delivered, and the loop goes on
  whether the reply is delivered or raises. Over the whole loop, which starts with the
  flag unset, the notices are therefore the replies that raised, followed by one
  delivered reply exactly when the flag is set at the end: nothing is sent after a
  delivered notice, at most one notice is delivered, the flag is set at most once, and
  when no reply raises the notice is sent at most once. No notice is sent exactly when no
  poll of the loop meets the condition. The notices in the trace of
  \<open>generate_image_from_prompt\<close> are those of its loop.
\<close>

theorem slow_queue_notice_once:
  "filter is_slow_notice (trace (snd (poll_step b task_id s))) =
     filter is_slow_notice (trace s) @
     (if slow_queue_condition b task_id s
      then [Replied Slow_queue_notice (reply_text b (replies s) = None)] else []) \<and>
   (notification_sent (snd (poll_step b task_id s)) \<longleftrightarrow>
      notification_sent s \<or> slow_queue_condition b task_id s \<and> reply_text b (replies s) = None) \<and>
   (slow_queue_condition b task_id s \<longrightarrow> fst (poll_step b task_id s) = None) \<and>
   (\<exists>m. filter is_slow_notice (trace (snd (poll_loop b task_id (start_polling w)))) =
          filter is_slow_notice (trace w) @ replicate m (Replied Slow_queue_notice False) @
          (if notification_sent (snd (poll_loop b task_id (start_polling w)))
           then [Replied Slow_queue_notice True] else []) \<and>
        ((\<forall>k. reply_text b k = None) \<longrightarrow> m = 0)) \<and>
   (slow_notices (trace (snd (poll_loop b task_id (start_polling w)))) = slow_notices (trace w) \<longleftrightarrow>
      \<not> (\<exists>s'. visits b task_id (start_polling w) s' \<and> elapsed s' < max_wait \<and>
             slow_queue_condition b task_id s')) \<and>
   (async_call b prompt = Returns resp \<and> sub_status_code resp = 200 \<and>
    subscript (sub_task_id resp) = Inr task_id \<longrightarrow>
      filter is_slow_notice (trace (snd (generate_image_from_prompt b prompt w'))) =
        filter is_slow_notice (trace (snd (poll_loop b task_id
          (start_polling (emit (Log Info (Task_created task_id)) (emit (Call_async prompt) w')))))))"
proof (intro conjI impI)
  show "filter is_slow_notice (trace (snd (poll_step b task_id s))) =
     filter is_slow_notice (trace s) @
     (if slow_queue_condition b task_id s
      then [Replied Slow_queue_notice (reply_text b (replies s) = None)] else [])"
    by (rule poll_step_notices)
next
  show "notification_sent (snd (poll_step b task_id s)) \<longleftrightarrow>
      notification_sent s \<or> slow_queue_condition b task_id s \<and> reply_text b (replies s) = None"
    by (rule poll_step_flag)
next
  assume "slow_queue_condition b task_id s"
  then show "fst (poll_step b task_id s) = None"
    by (rule poll_step_condition_continues)
next
  have unset: "\<not> notification_sent (start_polling w)"
    and start: "trace (start_polling w) = trace w"
    by (simp_all add: start_polling_def)
  from poll_loop_notices [OF unset, of b task_id]
  show "\<exists>m. filter is_slow_notice (trace (snd (poll_loop b task_id (start_polling w)))) =
          filter is_slow_notice (trace w) @ replicate m (Replied Slow_queue_notice False) @
          (if notification_sent (snd (poll_loop b task_id (start_polling w)))
           then [Replied Slow_queue_notice True] else []) \<and>
        ((\<forall>k. reply_text b k = None) \<longrightarrow> m = 0)"
    by (simp add: start)
  then obtain ys where "filter is_slow_notice (trace (snd (poll_loop b task_id (start_polling w)))) =
      filter is_slow_notice (trace w) @ ys"
    by blast
  then have "slow_notices (trace (snd (poll_loop b task_id (start_polling w)))) = slow_notices (trace w) \<longleftrightarrow>
      filter is_slow_notice (trace (snd (poll_loop b task_id (start_polling w)))) =
      filter is_slow_notice (trace (start_polling w))"
    by (simp add: slow_notices_def start)
  then show "slow_notices (trace (snd (poll_loop b task_id (start_polling w)))) = slow_notices (trace w) \<longleftrightarrow>
      \<not> (\<exists>s'. visits b task_id (start_polling w) s' \<and> elapsed s' < max_wait \<and>
             slow_queue_condition b task_id s')"
    by (simp only: poll_loop_no_notice)
next
  assume "async_call b prompt = Returns resp \<and> sub_status_code resp = 200 \<and>
    subscript (sub_task_id resp) = Inr task_id"
  then show "filter is_slow_notice (trace (snd (generate_image_from_prompt b prompt w'))) =
        filter is_slow_notice (trace (snd (poll_loop b task_id
          (start_polling (emit (Log Info (Task_created task_id)) (emit (Call_async prompt) w'))))))"
    by (blast intro: generate_notices)
qed

theorem slow_queue_notice_once_witness:
  "filter is_slow_notice (trace (snd (poll_loop
     (scripted (Raises RemoteError) (succeeds_at 9 (Present [Present ''u''])) first_reply_fails)
     (Some ''t1'') (start_polling w0)))) =
     [Replied Slow_queue_notice False, Replied Slow_queue_notice True] \<and>
   (\<exists>s. visits (scripted (Raises RemoteError) (succeeds_at 9 (Present [Present ''u''])) first_reply_fails)
          (Some ''t1'') (start_polling w0) s \<and> elapsed s < max_wait \<and>
        slow_queue_condition
          (scripted (Raises RemoteError) (succeeds_at 9 (Present [Present ''u''])) first_reply_fails)
          (Some ''t1'') s) \<and>
   filter is_slow_notice (trace (snd (generate_image_from_prompt
     (scripted (Raises RemoteError) (succeeds_at 9 (Present [Present ''u''])) (\<lambda>_. None))
     [0x63] w0))) = [Replied Slow_queue_notice True]"
proof -
  let ?b = "scripted (Raises RemoteError) (succeeds_at 9 (Present [Present ''u''])) first_reply_fails"
  have run: "filter is_slow_notice (trace (snd (poll_loop ?b (Some ''t1'') (start_polling w0)))) =
     [Replied Slow_queue_notice False, Replied Slow_queue_notice True]"
    by (simp add: run_defs succeeds_at_def first_reply_fails_def)
  then have "slow_notices (trace (snd (poll_loop ?b (Some ''t1'') (start_polling w0)))) \<noteq>
      slow_notices (trace w0)"
    by (simp add: slow_notices_def w0_def)
  with slow_queue_notice_once [where b = ?b and task_id = "Some ''t1''" and w = w0]
  have due: "\<exists>s. visits ?b (Some ''t1'') (start_polling w0) s \<and> elapsed s < max_wait \<and>
      slow_queue_condition ?b (Some ''t1'') s"
    by blast
  have "filter is_slow_notice (trace (snd (generate_image_from_prompt
     (scripted (Raises RemoteError) (succeeds_at 9 (Present [Present ''u''])) (\<lambda>_. None))
     [0x63] w0))) = [Replied Slow_queue_notice True]"
    by (simp add: run_defs succeeds_at_def)
  with run due show ?thesis
    by blast
qed

text \<open>
  The run that refutes C1 as stated: the job is pending for nine polls and every reply
  raises; the notice is sent at the eighth poll and again at the ninth.
\<close>

theorem slow_queue_notice_counterexample:
  "slow_notices (trace (snd (generate_image_from_prompt
     (scripted (Raises RemoteError) (succeeds_at 9 (Present [Present ''u''])) (\<lambda>_. Some TelegramError))
     [0x63] w0))) = 2"
  by (simp add: run_defs succeeds_at_def slow_notices_def)

end
